theory Spec2Isabelle
  imports Main "HOL-Library.Word"
begin

unbundle bit_operations_syntax

section \<open>The inferior process monitor (ProcessMonitor.cpp)\<close>

text \<open>
  A shallow embedding of the parts of \<^verbatim>\<open>ProcessMonitor.cpp\<close> that the properties below
  are about: the word-sized memory loops \<^verbatim>\<open>DoReadMemory\<close> and \<^verbatim>\<open>DoWriteMemory\<close>, the event
  classifier (\<^verbatim>\<open>MonitorCallback\<close>, \<^verbatim>\<open>MonitorSIGTRAP\<close>, \<^verbatim>\<open>MonitorSignal\<close>), the launch sequence
  of \<^verbatim>\<open>ProcessMonitor::Launch\<close>, the hardware debug register operations and the serve loop
  of the operation thread.  Logging is left out everywhere: it has no effect on any value
  the functions return.
\<close>

subsection \<open>Machine types\<close>

type_synonym addr_t = "64 word"  \<comment> \<open>\<^verbatim>\<open>lldb::addr_t\<close>, hard-coded to \<^verbatim>\<open>uint64_t\<close>\<close>
type_synonym pid_t = "64 word"   \<comment> \<open>\<^verbatim>\<open>lldb::pid_t\<close> and \<^verbatim>\<open>lldb::tid_t\<close>\<close>
type_synonym byte = "8 word"     \<comment> \<open>\<^verbatim>\<open>unsigned char\<close>\<close>
type_synonym long = "64 word"    \<comment> \<open>\<^verbatim>\<open>long\<close> and \<^verbatim>\<open>unsigned long\<close> of a 64-bit host\<close>
type_synonym cint = "32 word"    \<comment> \<open>\<^verbatim>\<open>int\<close>; read as signed with \<^const>\<open>sint\<close>\<close>

text \<open>
  \<^verbatim>\<open>lldb_private::Error\<close> as far as this file uses it: a fresh error is a success,
  \<^verbatim>\<open>SetErrorToErrno\<close> stores the errno, \<^verbatim>\<open>SetErrorToGenericError\<close> followed by
  \<^verbatim>\<open>SetErrorString\<close> stores a message.
\<close>

datatype Error = Success | ErrnoError nat | GenericError string

fun Error_Success :: "Error \<Rightarrow> bool" where
  "Error_Success Success = True"
| "Error_Success _ = False"

subsection \<open>The traced process and the peek and poke requests\<close>

text \<open>
  The inferior as the kernel shows it to \<^verbatim>\<open>ptrace\<close>: its memory, byte by byte, and for
  every address the errno with which a \<^verbatim>\<open>PTRACE_PEEKDATA\<close> or \<^verbatim>\<open>PTRACE_POKEDATA\<close>
  request on the word at that address fails (0 when it succeeds).  The kernel transfers
  one host word per request, at any address, aligned or not; on the little-endian hosts
  the source is written for, byte \<open>i\<close> of the word is the byte at address \<open>addr + i\<close>.
  Addresses are 64-bit and wrap around.
\<close>

record inferior =
  mem :: "addr_t \<Rightarrow> byte"
  peek_errno :: "addr_t \<Rightarrow> nat"
  poke_errno :: "addr_t \<Rightarrow> nat"

definition word_size :: nat where
  "word_size = 8"  \<comment> \<open>\<^verbatim>\<open>sizeof(void*)\<close> on a 64-bit host\<close>

definition load_word :: "(addr_t \<Rightarrow> byte) \<Rightarrow> addr_t \<Rightarrow> long" where
  "load_word m a =
     ucast (m a) OR push_bit 8 (ucast (m (a + 1))) OR push_bit 16 (ucast (m (a + 2)))
     OR push_bit 24 (ucast (m (a + 3))) OR push_bit 32 (ucast (m (a + 4)))
     OR push_bit 40 (ucast (m (a + 5))) OR push_bit 48 (ucast (m (a + 6)))
     OR push_bit 56 (ucast (m (a + 7)))"

definition store_word :: "(addr_t \<Rightarrow> byte) \<Rightarrow> addr_t \<Rightarrow> long \<Rightarrow> addr_t \<Rightarrow> byte" where
  "store_word m a w = (\<lambda>x. if unat (x - a) < 8 then ucast (drop_bit (unat (x - a) * 8) w) else m x)"

text \<open>
  \<^verbatim>\<open>ptrace\<close> returns the word (or 0) and leaves errno 0 on success; it returns -1 and
  sets errno on failure.  A peek does not change the inferior.
\<close>

definition PTRACE_PEEKDATA :: "inferior \<Rightarrow> addr_t \<Rightarrow> long \<times> nat" where
  "PTRACE_PEEKDATA p a =
     (if peek_errno p a = 0 then (load_word (mem p) a, 0) else (- 1, peek_errno p a))"

definition PTRACE_POKEDATA :: "inferior \<Rightarrow> addr_t \<Rightarrow> long \<Rightarrow> inferior \<times> long \<times> nat" where
  "PTRACE_POKEDATA p a data =
     (if poke_errno p a = 0 then (p\<lparr>mem := store_word (mem p) a data\<rparr>, 0, 0)
      else (p, - 1, poke_errno p a))"

subsection \<open>DoReadMemory and DoWriteMemory\<close>

text \<open>
  \<^verbatim>\<open>DoReadMemory(pid, vm_addr, buf, size, error)\<close>.  The loop state is the source's:
  \<open>vm_addr\<close>, \<open>bytes_read\<close> and the error slot; \<open>dst\<close> holds the bytes stored into the
  caller's buffer so far (the buffer's first \<open>bytes_read\<close> bytes, or up to \<open>size\<close> of them).
  The result is these bytes, the returned count and the error slot.
\<close>

function DoReadMemory_loop ::
  "inferior \<Rightarrow> addr_t \<Rightarrow> nat \<Rightarrow> nat \<Rightarrow> byte list \<Rightarrow> Error \<Rightarrow> byte list \<times> nat \<times> Error" where
  "DoReadMemory_loop p vm_addr sz bytes_read dst error =
     (if bytes_read < sz then
        (case PTRACE_PEEKDATA p vm_addr of (data, errno) \<Rightarrow>
           if errno \<noteq> 0 then (dst, bytes_read, ErrnoError errno)
           else
             (let remainder = sz - bytes_read;
                  remainder = (if remainder > word_size then word_size else remainder);
                  copied = map (\<lambda>i. ucast (drop_bit (i * 8) data AND 0xFF)) [0..<remainder]
              in DoReadMemory_loop p (vm_addr + of_nat word_size) sz
                   (bytes_read + remainder) (dst @ copied) error))
      else (dst, bytes_read, error))"
  by pat_completeness auto
termination
  by (relation "measure (\<lambda>(p, vm_addr, sz, bytes_read, dst, error). sz - bytes_read)")
     (auto simp: word_size_def)

definition DoReadMemory ::
  "inferior \<Rightarrow> addr_t \<Rightarrow> nat \<Rightarrow> Error \<Rightarrow> byte list \<times> nat \<times> Error" where
  "DoReadMemory p vm_addr sz error = DoReadMemory_loop p vm_addr sz 0 [] error"

text \<open>
  \<^verbatim>\<open>DoWriteMemory(pid, vm_addr, buf, size, error)\<close>.  \<open>src\<close> is the source's moving pointer,
  as the list of the bytes from it on; the entry point below passes a buffer of exactly
  \<open>size\<close> bytes.  A full word is packed and poked.  A trailing partial word is read with
  \<open>DoReadMemory\<close> into the 8-byte \<open>buff\<close>, overlaid by \<^verbatim>\<open>memcpy(buff, src, remainder)\<close> and
  written by a recursive call of size \<open>word_size\<close>.  The result is the inferior, the
  returned count and the error slot.
\<close>

function DoWriteMemory_loop ::
  "inferior \<Rightarrow> addr_t \<Rightarrow> byte list \<Rightarrow> nat \<Rightarrow> nat \<Rightarrow> Error \<Rightarrow> inferior \<times> nat \<times> Error" where
  "DoWriteMemory_loop p vm_addr src sz bytes_written error =
     (if bytes_written < sz then
        (let remainder = sz - bytes_written;
             remainder = (if remainder > word_size then word_size else remainder)
         in if remainder = word_size then
              (let data = fold (\<lambda>i d. d OR push_bit (i * 8) (ucast (src ! i))) [0..<word_size] 0
               in case PTRACE_POKEDATA p vm_addr data of (p', ret, errno) \<Rightarrow>
                    if ret \<noteq> 0 then (p', bytes_written, ErrnoError errno)
                    else DoWriteMemory_loop p' (vm_addr + of_nat word_size) (drop word_size src)
                           sz (bytes_written + remainder) error)
            else
              (case DoReadMemory p vm_addr word_size error of (buff, n, error1) \<Rightarrow>
                 if n \<noteq> word_size then (p, bytes_written, error1)
                 else
                   (let buff' = take remainder src @ drop remainder buff
                    in case DoWriteMemory_loop p vm_addr buff' word_size 0 error1 of
                         (p2, n2, error2) \<Rightarrow>
                           if n2 \<noteq> word_size then (p2, bytes_written, error2)
                           else DoWriteMemory_loop p2 (vm_addr + of_nat word_size)
                                  (drop word_size src) sz (bytes_written + remainder) error2)))
      else (p, bytes_written, error))"
  by pat_completeness auto
termination
proof (relation "measure (\<lambda>(p, vm_addr, src, sz, bytes_written, error).
          (if (sz - bytes_written) mod 8 = 0 then 0 else 2) + (sz - bytes_written) div 8)",
       goal_cases)
  case 1
  show ?case by simp
next
  case (2 p vm_addr src sz bytes_written error x xa xb xc y xd ya)
  from 2(1-4) have "8 \<le> sz - bytes_written" and xa: "xa = 8"
    by (cases "word_size < sz - bytes_written"; simp add: word_size_def)+
  then obtain r where r: "sz - bytes_written = 8 + r"
    using le_Suc_ex by blast
  then have "sz - (bytes_written + 8) = r"
    by simp
  with r xa show ?case
    by simp
next
  case (3 p vm_addr src sz bytes_written error x xa xb y xc ya xd)
  from 3(1-5) have "0 < sz - bytes_written" "sz - bytes_written < 8"
    by (cases "word_size < sz - bytes_written"; simp add: word_size_def)+
  then show ?case
    by (simp add: word_size_def)
next
  case (4 p vm_addr src sz bytes_written error x xa xb y xc ya xd xe yb xf yc)
  from 4(1-5) have "0 < sz - bytes_written" "sz - bytes_written < 8" "xa = sz - bytes_written"
    by (cases "word_size < sz - bytes_written"; simp add: word_size_def)+
  then show ?case
    by simp
qed

definition DoWriteMemory ::
  "inferior \<Rightarrow> addr_t \<Rightarrow> byte list \<Rightarrow> Error \<Rightarrow> inferior \<times> nat \<times> Error" where
  "DoWriteMemory p vm_addr buf error = DoWriteMemory_loop p vm_addr buf (length buf) 0 error"


text \<open>The full-word branch's packing loop, named for the proofs below.\<close>

definition pack :: "byte list \<Rightarrow> long" where
  "pack src = fold (\<lambda>i d. d OR push_bit (i * 8) (ucast (src ! i))) [0..<word_size] 0"

subsection \<open>Signals, trap codes and process messages\<close>

text \<open>
  The numbers of the Linux headers the source includes (\<^verbatim>\<open>signal.h\<close>, \<^verbatim>\<open>errno.h\<close>,
  \<^verbatim>\<open>sys/ptrace.h\<close>, \<^verbatim>\<open>asm-generic/siginfo.h\<close>); \<^verbatim>\<open>TRAP_HWBKPT\<close> is also defined by the
  source itself.
\<close>

definition SIGILL :: cint where "SIGILL = 4"
definition SIGTRAP :: cint where "SIGTRAP = 5"
definition SIGBUS :: cint where "SIGBUS = 7"
definition SIGFPE :: cint where "SIGFPE = 8"
definition SIGSEGV :: cint where "SIGSEGV = 11"
definition SIGSTOP :: cint where "SIGSTOP = 19"
definition EINTR :: nat where "EINTR = 4"
definition EINVAL :: nat where "EINVAL = 22"
definition SI_USER :: cint where "SI_USER = 0"
definition SI_KERNEL :: cint where "SI_KERNEL = 0x80"
definition SI_TKILL :: cint where "SI_TKILL = - 6"
definition TRAP_BRKPT :: cint where "TRAP_BRKPT = 1"
definition TRAP_TRACE :: cint where "TRAP_TRACE = 2"
definition TRAP_HWBKPT :: cint where "TRAP_HWBKPT = 4"
definition PTRACE_EVENT_CLONE :: cint where "PTRACE_EVENT_CLONE = 3"
definition PTRACE_EVENT_EXEC :: cint where "PTRACE_EVENT_EXEC = 4"
definition PTRACE_EVENT_EXIT :: cint where "PTRACE_EVENT_EXIT = 6"

text \<open>The fields of \<^verbatim>\<open>siginfo_t\<close> that the classifier reads.\<close>

record siginfo_t =
  si_signo :: cint
  si_code :: cint
  si_pid :: cint
  si_addr :: addr_t

text \<open>
  Modelled from the spec: \<^verbatim>\<open>ProcessMessage.h\<close> is not among the sources.  The variants
  are those of the spec's Process Message vocabulary, built by the factory functions the
  source calls (\<^verbatim>\<open>ProcessMessage::Exit\<close>, \<^verbatim>\<open>Limbo\<close>, \<^verbatim>\<open>Trace\<close>, ...), each carrying the
  arguments the source passes.  \<open>InvalidMessage\<close> is the default-constructed
  \<^verbatim>\<open>ProcessMessage message;\<close>, the kind the source names \<^verbatim>\<open>eInvalidMessage\<close>.  The crash
  reason is what \<^verbatim>\<open>GetCrashReason\<close> (\<^verbatim>\<open>CrashReason.cpp\<close>, not among the sources) returns; its
  type is left open.
\<close>

datatype 'r ProcessMessage =
    InvalidMessage
  | Exit pid_t cint
  | Limbo pid_t long
  | Trace pid_t
  | Break pid_t
  | Watch pid_t addr_t
  | Crash pid_t 'r cint addr_t
  | NewThread pid_t long
  | Exec pid_t
  | Signal pid_t cint
  | SignalDelivered pid_t cint

text \<open>
  The signal argument of \<^verbatim>\<open>ProcessMonitor::Resume\<close>: the enumerator \<^verbatim>\<open>eResumeSignalNone\<close>
  (declared in \<^verbatim>\<open>ProcessMonitor.h\<close>, not among the sources; the spec's "no-signal") or a
  signal number.
\<close>

datatype resume_signal = eResumeSignalNone | ResumeSignal cint

text \<open>
  What one run of the wait task's callback does to the outside, in order: the operations
  it sends through the funnel and the messages it hands to the process object.
\<close>

datatype 'r effect =
    OpGetSignalInfo pid_t
  | OpGetEventMessage pid_t
  | OpResume pid_t resume_signal
  | SendMessage "'r ProcessMessage"

fun is_SendMessage :: "'r effect \<Rightarrow> bool" where
  "is_SendMessage (SendMessage m) = True"
| "is_SendMessage _ = False"

text \<open>
  An effect that delivers a message of the vocabulary to the process object.  Handing over
  the default-constructed \<open>InvalidMessage\<close> delivers none: it is the placeholder for "nothing
  to report", which \<^verbatim>\<open>StopThread\<close> likewise passes by (\<^verbatim>\<open>case ProcessMessage::eInvalidMessage:
  break;\<close>).
\<close>

fun delivers_message :: "'r effect \<Rightarrow> bool" where
  "delivers_message (SendMessage InvalidMessage) = False"
| "delivers_message (SendMessage m) = True"
| "delivers_message _ = False"

text \<open>A failed \<^verbatim>\<open>assert\<close> aborts the debugger, unless the build defines \<^verbatim>\<open>NDEBUG\<close>.\<close>

datatype abort = AssertionFailed

text \<open>
  What the callback is given from outside during one wake-up: the build's \<^verbatim>\<open>NDEBUG\<close>
  setting, \<^verbatim>\<open>process->GetID()\<close>, \<^verbatim>\<open>getpid()\<close>, \<^verbatim>\<open>GetCrashReason\<close>, and the results of the
  operations it may send: \<^verbatim>\<open>GetSignalInfo\<close> (the errno on failure, else the siginfo),
  \<^verbatim>\<open>GetEventMessage\<close> (\<open>None\<close> on failure) and \<^verbatim>\<open>Resume\<close>.
\<close>

record 'r wakeup_env =
  ndebug :: bool
  process_GetID :: pid_t
  getpid :: cint
  GetCrashReason :: "siginfo_t \<Rightarrow> 'r"
  GetSignalInfo :: "nat + siginfo_t"
  GetEventMessage :: "long option"
  Resume :: bool

subsection \<open>The event classifier\<close>

definition MonitorSIGTRAP ::
  "'r wakeup_env \<Rightarrow> siginfo_t \<Rightarrow> pid_t \<Rightarrow> (abort + 'r ProcessMessage) \<times> 'r effect list" where
  "MonitorSIGTRAP env info pid =
     (if si_signo info \<noteq> SIGTRAP \<and> \<not> ndebug env then (Inl AssertionFailed, [])
      else if si_code info = SIGTRAP OR push_bit 8 PTRACE_EVENT_CLONE then
        (let tid = (case GetEventMessage env of Some t \<Rightarrow> t | None \<Rightarrow> - 1)
         in (Inr (NewThread pid tid), [OpGetEventMessage pid]))
      else if si_code info = SIGTRAP OR push_bit 8 PTRACE_EVENT_EXEC then
        (Inr (Exec pid), [])
      else if si_code info = SIGTRAP OR push_bit 8 PTRACE_EVENT_EXIT then
        (let data = (case GetEventMessage env of Some d \<Rightarrow> d | None \<Rightarrow> - 1)
         in (Inr (Limbo pid (drop_bit 8 data)), [OpGetEventMessage pid]))
      else if si_code info = 0 \<or> si_code info = TRAP_TRACE then
        (Inr (Trace pid), [])
      else if si_code info = SI_KERNEL \<or> si_code info = TRAP_BRKPT then
        (Inr (Break pid), [])
      else if si_code info = TRAP_HWBKPT then
        (Inr (Watch pid (si_addr info)), [])
      else if si_code info = SIGTRAP \<or> si_code info = SIGTRAP OR 0x80 then
        (Inr InvalidMessage, [OpResume pid eResumeSignalNone])
      else if ndebug env then (Inr InvalidMessage, [])
      else (Inl AssertionFailed, []))"

definition MonitorSignal :: "'r wakeup_env \<Rightarrow> siginfo_t \<Rightarrow> pid_t \<Rightarrow> 'r ProcessMessage" where
  "MonitorSignal env info pid =
     (let signo = si_signo info
      in if si_code info = SI_TKILL \<or> si_code info = SI_USER then
           (if si_pid info = getpid env then SignalDelivered pid signo else Signal pid signo)
         else if signo = SIGSEGV \<or> signo = SIGILL \<or> signo = SIGFPE \<or> signo = SIGBUS then
           Crash pid (GetCrashReason env info) signo (si_addr info)
         else Signal pid signo)"

text \<open>
  \<^verbatim>\<open>MonitorCallback(callback_baton, pid, exited, signal, status)\<close>: the result is
  \<open>stop_monitoring\<close>, or the abort of a failed assertion, together with the effects.
\<close>

definition MonitorCallback ::
  "'r wakeup_env \<Rightarrow> pid_t \<Rightarrow> bool \<Rightarrow> cint \<Rightarrow> cint \<Rightarrow> (abort + bool) \<times> 'r effect list" where
  "MonitorCallback env pid exited signal status =
     (if exited then
        (Inr (pid = process_GetID env), [SendMessage (Exit pid status)])
      else
        (case GetSignalInfo env of
           Inl ptrace_err \<Rightarrow>
             if ptrace_err = EINVAL then
               (if \<not> Resume env \<and> \<not> ndebug env then Inl AssertionFailed else Inr False,
                [OpGetSignalInfo pid, OpResume pid (ResumeSignal SIGSTOP)])
             else
               (let stop_monitoring = (pid = process_GetID env)
                in (Inr stop_monitoring,
                    OpGetSignalInfo pid #
                      (if stop_monitoring then [SendMessage (Exit pid status)] else [])))
         | Inr info \<Rightarrow>
             (case (if si_signo info = SIGTRAP then MonitorSIGTRAP env info pid
                    else (Inr (MonitorSignal env info pid), [])) of
                (Inl a, effects) \<Rightarrow> (Inl a, OpGetSignalInfo pid # effects)
              | (Inr message, effects) \<Rightarrow>
                  (Inr False, OpGetSignalInfo pid # effects @ [SendMessage message]))))"


subsection \<open>Launch\<close>

text \<open>The child's exit status codes, the enumeration inside \<^verbatim>\<open>ProcessMonitor::Launch\<close>.\<close>

definition ePtraceFailed :: cint where "ePtraceFailed = 1"
definition eDupStdinFailed :: cint where "eDupStdinFailed = 2"
definition eDupStdoutFailed :: cint where "eDupStdoutFailed = 3"
definition eDupStderrFailed :: cint where "eDupStderrFailed = 4"
definition eChdirFailed :: cint where "eChdirFailed = 5"
definition eExecFailed :: cint where "eExecFailed = 6"
definition eSetGidFailed :: cint where "eSetGidFailed = 7"

definition STDIN_FILENO :: nat where "STDIN_FILENO = 0"
definition STDOUT_FILENO :: nat where "STDOUT_FILENO = 1"
definition STDERR_FILENO :: nat where "STDERR_FILENO = 2"

text \<open>
  The launch arguments that \<^verbatim>\<open>Launch\<close> reads.  \<open>m_envp\<close> is \<open>None\<close> for a null pointer and
  otherwise the entries before the terminating null, so \<^verbatim>\<open>envp[0] == NULL\<close> is \<open>Some []\<close>.
  A \<^verbatim>\<open>FileSpec\<close> that tests false (no path) is \<open>None\<close>.
\<close>

record LaunchArgs =
  m_argv :: "string list"
  m_envp :: "string list option"
  m_stdin_file_spec :: "string option"
  m_stdout_file_spec :: "string option"
  m_stderr_file_spec :: "string option"
  m_working_dir :: "string option"

text \<open>
  The system as the launch meets it: the debugger's own \<^verbatim>\<open>environ\<close>, which of the calls
  made by the child and by the parent fail, and whether the constructor's
  \<^verbatim>\<open>StartMonitoringChildProcess\<close> yields a joinable thread.  The personality calls that disable
  address space randomisation only log and are left out.
\<close>

record launch_sys =
  environ :: "string list"
  fork_fails :: bool
  traceme_fails :: bool
  setgid_fails :: bool
  open_fails :: "string \<Rightarrow> bool"
  dup2_fails :: "nat \<Rightarrow> bool"
  close_fails :: "nat \<Rightarrow> bool"
  chdir_fails :: "string \<Rightarrow> bool"
  execve_fails :: "string list \<Rightarrow> string list \<Rightarrow> bool"
  waitpid_errno :: nat
  SetDefaultPtraceOpts_errno :: nat
  EnsureFDFlags_errno :: nat
  monitor_thread_IsJoinable :: bool

definition DupDescriptor :: "launch_sys \<Rightarrow> string \<Rightarrow> nat \<Rightarrow> bool" where
  "DupDescriptor sys file_spec fd =
     (if open_fails sys file_spec then False
      else if dup2_fails sys fd then False
      else \<not> close_fails sys fd)"

text \<open>How the child ends: \<^verbatim>\<open>exit(code)\<close>, or replaced by \<^verbatim>\<open>execve(argv[0], argv, envp)\<close>.\<close>

datatype child_outcome = ChildExit cint | Execve "string list" "string list"

definition Launch_child :: "launch_sys \<Rightarrow> LaunchArgs \<Rightarrow> string list \<Rightarrow> child_outcome" where
  "Launch_child sys args envp =
     (if traceme_fails sys then ChildExit ePtraceFailed
      else if setgid_fails sys then ChildExit eSetGidFailed
      else if (case m_stdin_file_spec args of
                 Some f \<Rightarrow> \<not> DupDescriptor sys f STDIN_FILENO | None \<Rightarrow> False)
        then ChildExit eDupStdinFailed
      else if (case m_stdout_file_spec args of
                 Some f \<Rightarrow> \<not> DupDescriptor sys f STDOUT_FILENO | None \<Rightarrow> False)
        then ChildExit eDupStdoutFailed
      else if (case m_stderr_file_spec args of
                 Some f \<Rightarrow> \<not> DupDescriptor sys f STDERR_FILENO | None \<Rightarrow> False)
        then ChildExit eDupStderrFailed
      else if (case m_working_dir args of Some d \<Rightarrow> chdir_fails sys d | None \<Rightarrow> False)
        then ChildExit eChdirFailed
      else if execve_fails sys (m_argv args) envp then ChildExit eExecFailed
      else Execve (m_argv args) envp)"

text \<open>
  The environment the child is given: \<^verbatim>\<open>if (envp == NULL || envp[0] == NULL) envp = environ;\<close>
\<close>

definition Launch_envp :: "launch_sys \<Rightarrow> LaunchArgs \<Rightarrow> string list" where
  "Launch_envp sys args =
     (case m_envp args of None \<Rightarrow> environ sys | Some [] \<Rightarrow> environ sys | Some (e # es) \<Rightarrow> e # es)"

text \<open>
  The wait status the parent's \<^verbatim>\<open>waitpid\<close> stores and the macros of \<^verbatim>\<open>sys/wait.h\<close> that
  read it: an exited child has the low seven bits clear and its exit code in bits 8 to 15;
  a child that stopped on the \<^verbatim>\<open>SIGTRAP\<close> of its \<^verbatim>\<open>execve\<close> has \<^verbatim>\<open>0x7f\<close> in the low byte.
\<close>

definition wait_status :: "child_outcome \<Rightarrow> cint" where
  "wait_status c =
     (case c of ChildExit code \<Rightarrow> push_bit 8 (code AND 0xFF)
              | Execve argv envp \<Rightarrow> push_bit 8 SIGTRAP OR 0x7F)"

definition WIFEXITED :: "cint \<Rightarrow> bool" where
  "WIFEXITED status = (status AND 0x7F = 0)"

definition WEXITSTATUS :: "cint \<Rightarrow> cint" where
  "WEXITSTATUS status = drop_bit 8 (status AND 0xFF00)"

text \<open>The parent's \<^verbatim>\<open>switch (WEXITSTATUS(status))\<close>.\<close>

definition exit_status_string :: "cint \<Rightarrow> string" where
  "exit_status_string code =
     (if code = ePtraceFailed then ''Child ptrace failed.''
      else if code = eDupStdinFailed then ''Child open stdin failed.''
      else if code = eDupStdoutFailed then ''Child open stdout failed.''
      else if code = eDupStderrFailed then ''Child open stderr failed.''
      else if code = eChdirFailed then ''Child failed to set working directory.''
      else if code = eExecFailed then ''Child exec failed.''
      else if code = eSetGidFailed then ''Child setgid failed.''
      else ''Child returned unknown exit status.'')"

text \<open>
  \<^verbatim>\<open>ProcessMonitor::Launch(args)\<close>, as the error it leaves in \<^verbatim>\<open>args->m_error\<close>; the function
  returns \<^verbatim>\<open>args->m_error.Success()\<close>.
\<close>

definition Launch_error :: "launch_sys \<Rightarrow> LaunchArgs \<Rightarrow> Error" where
  "Launch_error sys args =
     (let envp = Launch_envp sys args
      in if fork_fails sys then GenericError ''Process fork failed.''
         else
           (let status = wait_status (Launch_child sys args envp)
            in if waitpid_errno sys \<noteq> 0 then ErrnoError (waitpid_errno sys)
               else if WIFEXITED status then GenericError (exit_status_string (WEXITSTATUS status))
               else if SetDefaultPtraceOpts_errno sys \<noteq> 0
                 then ErrnoError (SetDefaultPtraceOpts_errno sys)
               else if EnsureFDFlags_errno sys \<noteq> 0 then ErrnoError (EnsureFDFlags_errno sys)
               else Success))"

definition Launch :: "launch_sys \<Rightarrow> LaunchArgs \<Rightarrow> bool" where
  "Launch sys args = Error_Success (Launch_error sys args)"

subsection \<open>Hardware debug registers\<close>

text \<open>
  Compiled for aarch64 only.  \<^verbatim>\<open>ReadDBGROperation::Execute\<close> issues two
  \<^verbatim>\<open>PTRACE_GETREGSET\<close> requests into the same, uninitialised \<^verbatim>\<open>dreg_state\<close> and drops what
  they return.  A request that succeeds stores the kernel's \<^verbatim>\<open>dbg_info\<close>; one that fails
  (\<open>None\<close>) leaves the buffer as it was.
\<close>

record dbgr_sys =
  uninitialised_dbg_info :: "32 word"
  GETREGSET_HW_WATCH :: "32 word option"
  GETREGSET_HW_BREAK :: "32 word option"
  SETREGSET_fails :: bool

definition ReadDBGROperation_Execute :: "dbgr_sys \<Rightarrow> 32 word \<times> 32 word" where
  "ReadDBGROperation_Execute sys =
     (let dbg_info = (case GETREGSET_HW_WATCH sys of Some v \<Rightarrow> v
                      | None \<Rightarrow> uninitialised_dbg_info sys);
          m_count_wp = dbg_info AND 0xFF;
          dbg_info = (case GETREGSET_HW_BREAK sys of Some v \<Rightarrow> v | None \<Rightarrow> dbg_info);
          m_count_bp = dbg_info AND 0xFF
      in (m_count_wp, m_count_bp))"

text \<open>
  \<^verbatim>\<open>ReadHardwareDebugInfo(tid, watch_count, break_count)\<close>: the returned flag and the two
  out-parameters.
\<close>

definition ReadHardwareDebugInfo :: "dbgr_sys \<Rightarrow> bool \<times> 32 word \<times> 32 word" where
  "ReadHardwareDebugInfo sys =
     (let result = True;
          (watch_count, break_count) = ReadDBGROperation_Execute sys
      in (result, watch_count, break_count))"

definition NT_ARM_HW_BREAK :: cint where "NT_ARM_HW_BREAK = 0x402"
definition NT_ARM_HW_WATCH :: cint where "NT_ARM_HW_WATCH = 0x403"

text \<open>
  \<^verbatim>\<open>WriteDBGROperation::Execute\<close>.  The zeroed \<^verbatim>\<open>dreg_state\<close> is a
  \<^verbatim>\<open>struct user_hwdebug_state\<close> of the kernel's \<^verbatim>\<open>asm/ptrace.h\<close> (not among the sources), whose
  \<^verbatim>\<open>dbg_regs\<close> array has 16 entries.  The loop \<^verbatim>\<open>for (int i = 0; i < m_count; i++)\<close> stores
  into \<^verbatim>\<open>dbg_regs[i]\<close> what it reads from \<^verbatim>\<open>m_addr_buf[i]\<close> and \<^verbatim>\<open>m_cntrl_buf[i]\<close>, with no
  check of \<open>i\<close>: a count beyond the 16 entries, or beyond what the caller's arrays hold,
  goes outside them, which is undefined behaviour.  Otherwise the result is the register
  set named, the array passed to the kernel, and the value of the \<^verbatim>\<open>PTRACE_SETREGSET\<close>
  request, which the source drops.  \<open>count\<close> is an \<^verbatim>\<open>int\<close>; a negative one runs no iteration.
\<close>

definition dbg_regs_size :: nat where
  "dbg_regs_size = 16"

datatype undefined_behaviour = OutOfBounds

definition WriteDBGROperation_Execute ::
  "dbgr_sys \<Rightarrow> addr_t list \<Rightarrow> 32 word list \<Rightarrow> cint \<Rightarrow> int \<Rightarrow>
   undefined_behaviour + cint \<times> (addr_t \<times> 32 word) list \<times> long" where
  "WriteDBGROperation_Execute sys addr_buf cntrl_buf type count =
     (let m_type = (if type = 0 then NT_ARM_HW_WATCH else NT_ARM_HW_BREAK);
          m_count = nat count
      in if dbg_regs_size < m_count \<or> length addr_buf < m_count \<or> length cntrl_buf < m_count
         then Inl OutOfBounds
         else
           (let dbg_regs = map (\<lambda>i. (addr_buf ! i, cntrl_buf ! i)) [0..<m_count] @
                           replicate (dbg_regs_size - m_count) (0, 0);
                ret = (if SETREGSET_fails sys then - 1 else 0)
            in Inr (m_type, dbg_regs, ret)))"

text \<open>
  \<^verbatim>\<open>WriteHardwareDebugRegs(tid, addr_buf, cntrl_buf, type, count)\<close>: the returned flag and
  the request made, unless the operation ran outside its arrays.
\<close>

definition WriteHardwareDebugRegs ::
  "dbgr_sys \<Rightarrow> addr_t list \<Rightarrow> 32 word list \<Rightarrow> cint \<Rightarrow> int \<Rightarrow>
   undefined_behaviour + bool \<times> cint \<times> (addr_t \<times> 32 word) list" where
  "WriteHardwareDebugRegs sys addr_buf cntrl_buf type count =
     (let result = True
      in case WriteDBGROperation_Execute sys addr_buf cntrl_buf type count of
           Inl ub \<Rightarrow> Inl ub
         | Inr (m_type, dbg_regs, ret) \<Rightarrow> Inr (result, m_type, dbg_regs))"

subsection \<open>The operation funnel\<close>

text \<open>
  \<^verbatim>\<open>Operation *\<close> is \<open>'op option\<close>, \<open>None\<close> for the null pointer; the sentinel is
  \<^verbatim>\<open>static Operation* EXIT_OPERATION = nullptr;\<close>
\<close>

definition EXIT_OPERATION :: "'op option" where
  "EXIT_OPERATION = None"

text \<open>
  The owner task and one caller, as two threads over the monitor's two semaphores and its
  operation slot.  Each thread is at one of the statements of its function:

  \<^item> the owner is in \<^verbatim>\<open>ServeOperation\<close>'s loop, at \<^verbatim>\<open>sem_wait(&m_operation_pending)\<close>, at
    \<^verbatim>\<open>m_operation->Execute(monitor)\<close> or at \<^verbatim>\<open>sem_post(&m_operation_done)\<close>; or its thread
    function has returned (\<^verbatim>\<open>LaunchOpThread\<close> and \<^verbatim>\<open>AttachOpThread\<close> return \<^verbatim>\<open>NULL\<close> without
    serving when \<^verbatim>\<open>Launch\<close> or \<^verbatim>\<open>Attach\<close> fails); or it has called \<^verbatim>\<open>Execute\<close> through the
    null pointer, which ends the debugger;
  \<^item> the caller is in \<^verbatim>\<open>DoOperation(op)\<close>, at \<^verbatim>\<open>m_operation = op\<close>, at
    \<^verbatim>\<open>sem_post(&m_operation_pending)\<close> or at \<^verbatim>\<open>sem_wait(&m_operation_done)\<close>, called directly
    or from \<^verbatim>\<open>StopOpThread\<close>, which tests \<^verbatim>\<open>IsJoinable()\<close> before and joins the owner after.

  A \<^verbatim>\<open>sem_wait\<close> on a semaphore that is zero blocks: the step leaves the state as it is.
  So does a \<^verbatim>\<open>sem_wait\<close> interrupted with \<^verbatim>\<open>EINTR\<close>, which both loops retry.  The mutex of
  \<^verbatim>\<open>DoOperation\<close> admits one caller at a time; one caller is modelled.
\<close>

datatype owner_pc =
    Serve_sem_wait | Serve_Execute | Serve_sem_post | Owner_returned | Owner_crashed

datatype do_pc = Do_store | Do_sem_post | Do_sem_wait

datatype caller_pc =
    In_DoOperation do_pc
  | DoOperation_returned
  | StopOpThread_entry
  | StopOpThread_DoOperation do_pc
  | StopOpThread_Join
  | StopOpThread_returned

record 'op funnel =
  m_operation_pending :: nat
  m_operation_done :: nat
  m_operation :: "'op option"
  IsJoinable :: bool
  owner :: owner_pc
  caller :: caller_pc
  op_arg :: "'op option"
  executed :: "'op list"

text \<open>One statement of \<^verbatim>\<open>DoOperation\<close>; the second component is \<open>None\<close> once it returns.\<close>

fun DoOperation_step :: "'op funnel \<Rightarrow> do_pc \<Rightarrow> 'op funnel \<times> do_pc option" where
  "DoOperation_step s Do_store = (s\<lparr>m_operation := op_arg s\<rparr>, Some Do_sem_post)"
| "DoOperation_step s Do_sem_post =
     (s\<lparr>m_operation_pending := m_operation_pending s + 1\<rparr>, Some Do_sem_wait)"
| "DoOperation_step s Do_sem_wait =
     (if 0 < m_operation_done s then (s\<lparr>m_operation_done := m_operation_done s - 1\<rparr>, None)
      else (s, Some Do_sem_wait))"

fun caller_step :: "'op funnel \<Rightarrow> 'op funnel" where
  "caller_step s =
     (case caller s of
        In_DoOperation pc \<Rightarrow>
          (case DoOperation_step s pc of
             (s', Some pc') \<Rightarrow> s'\<lparr>caller := In_DoOperation pc'\<rparr>
           | (s', None) \<Rightarrow> s'\<lparr>caller := DoOperation_returned\<rparr>)
      | DoOperation_returned \<Rightarrow> s
      | StopOpThread_entry \<Rightarrow>
          (if \<not> IsJoinable s then s\<lparr>caller := StopOpThread_returned\<rparr>
           else s\<lparr>op_arg := EXIT_OPERATION, caller := StopOpThread_DoOperation Do_store\<rparr>)
      | StopOpThread_DoOperation pc \<Rightarrow>
          (case DoOperation_step s pc of
             (s', Some pc') \<Rightarrow> s'\<lparr>caller := StopOpThread_DoOperation pc'\<rparr>
           | (s', None) \<Rightarrow> s'\<lparr>caller := StopOpThread_Join\<rparr>)
      | StopOpThread_Join \<Rightarrow>
          (if owner s = Owner_returned then s\<lparr>IsJoinable := False, caller := StopOpThread_returned\<rparr>
           else s)
      | StopOpThread_returned \<Rightarrow> s)"

text \<open>One statement of \<^verbatim>\<open>ServeOperation\<close>'s loop.  The loop has no exit.\<close>

fun ServeOperation_step :: "'op funnel \<Rightarrow> 'op funnel" where
  "ServeOperation_step s =
     (case owner s of
        Serve_sem_wait \<Rightarrow>
          (if 0 < m_operation_pending s
           then s\<lparr>m_operation_pending := m_operation_pending s - 1, owner := Serve_Execute\<rparr>
           else s)
      | Serve_Execute \<Rightarrow>
          (case m_operation s of
             None \<Rightarrow> s\<lparr>owner := Owner_crashed\<rparr>
           | Some op \<Rightarrow> s\<lparr>executed := executed s @ [op], owner := Serve_sem_post\<rparr>)
      | Serve_sem_post \<Rightarrow> s\<lparr>m_operation_done := m_operation_done s + 1, owner := Serve_sem_wait\<rparr>
      | Owner_returned \<Rightarrow> s
      | Owner_crashed \<Rightarrow> s)"

text \<open>
  A schedule says which thread moves next.  Nothing moves once the owner has gone through
  the null pointer.
\<close>

datatype thread = Caller | Owner

fun step :: "'op funnel \<Rightarrow> thread \<Rightarrow> 'op funnel" where
  "step s t =
     (if owner s = Owner_crashed then s
      else case t of Caller \<Rightarrow> caller_step s | Owner \<Rightarrow> ServeOperation_step s)"

definition run :: "'op funnel \<Rightarrow> thread list \<Rightarrow> 'op funnel" where
  "run s schedule = foldl step s schedule"

text \<open>
  The funnel between two operations, with the owner serving and the last operation still
  in the slot, entered by a caller at \<open>pc\<close>; and the funnel after a failed launch or
  attach, the owner's thread function having returned.
\<close>

definition serving :: "'op option \<Rightarrow> 'op option \<Rightarrow> caller_pc \<Rightarrow> 'op funnel" where
  "serving last_op op pc =
     \<lparr>m_operation_pending = 0, m_operation_done = 0, m_operation = last_op, IsJoinable = True,
      owner = Serve_sem_wait, caller = pc, op_arg = op, executed = []\<rparr>"

definition bootstrap_failed :: "caller_pc \<Rightarrow> 'op funnel" where
  "bootstrap_failed pc =
     \<lparr>m_operation_pending = 0, m_operation_done = 0, m_operation = None, IsJoinable = True,
      owner = Owner_returned, caller = pc, op_arg = None, executed = []\<rparr>"

text \<open>
  The launching constructor from the point where the operation thread has reported:
  \<^verbatim>\<open>if (!args->m_error.Success()) { StopOpThread(); error = args->m_error; return; }\<close>
  Under a schedule the constructor has either returned, with the error it hands to its
  caller, or is still inside \<^verbatim>\<open>StopOpThread\<close>.
\<close>

datatype ctor_outcome = Constructor_returned Error | Constructor_in_StopOpThread

definition ProcessMonitor_ctor ::
  "launch_sys \<Rightarrow> LaunchArgs \<Rightarrow> thread list \<Rightarrow> ctor_outcome" where
  "ProcessMonitor_ctor sys args schedule =
     (if Launch sys args then
        Constructor_returned
          (if monitor_thread_IsJoinable sys then Success
           else GenericError ''Process launch failed.'')
      else if caller (run (bootstrap_failed StopOpThread_entry :: unit funnel) schedule)
                = StopOpThread_returned
        then Constructor_returned (Launch_error sys args)
      else Constructor_in_StopOpThread)"


subsection \<open>Concrete inputs\<close>

text \<open>
  An inferior whose byte at address \<open>a\<close> is the low byte of \<open>a\<close>, and where peeking or
  poking the word at \<^verbatim>\<open>0x1010\<close> fails with \<^verbatim>\<open>EIO\<close> (5).
\<close>

definition inferior0 :: inferior where
  "inferior0 = \<lparr>mem = (\<lambda>a. ucast a), peek_errno = (\<lambda>a. if a = 0x1010 then 5 else 0),
                poke_errno = (\<lambda>a. if a = 0x1010 then 5 else 0)\<rparr>"


text \<open>
  A wake-up environment of a debugger with pid 77 tracing the thread group 1234, in a
  build with assertions, and a siginfo with a given signal, code and sender.
\<close>

definition env0 :: "string wakeup_env" where
  "env0 = \<lparr>ndebug = False, process_GetID = 1234, getpid = 77,
            GetCrashReason = (\<lambda>info. if si_addr info = 0 then ''null'' else ''other''),
            GetSignalInfo = Inl 3, GetEventMessage = None, Resume = True\<rparr>"

definition siginfo0 :: "cint \<Rightarrow> cint \<Rightarrow> cint \<Rightarrow> siginfo_t" where
  "siginfo0 signo code sender = \<lparr>si_signo = signo, si_code = code, si_pid = sender, si_addr = 0\<rparr>"

text \<open>
  A system where every call succeeds, except that only \<^verbatim>\<open>/bin/true\<close> can be executed; and
  launch arguments with no redirections and no working directory.
\<close>

definition sys0 :: launch_sys where
  "sys0 = \<lparr>environ = [''PATH=/bin'', ''HOME=/root''], fork_fails = False, traceme_fails = False,
            setgid_fails = False, open_fails = (\<lambda>f. False), dup2_fails = (\<lambda>fd. False),
            close_fails = (\<lambda>fd. False), chdir_fails = (\<lambda>d. False),
            execve_fails = (\<lambda>argv envp. argv \<noteq> [''/bin/true'']), waitpid_errno = 0,
            SetDefaultPtraceOpts_errno = 0, EnsureFDFlags_errno = 0,
            monitor_thread_IsJoinable = True\<rparr>"

definition args0 :: "string list \<Rightarrow> string list option \<Rightarrow> LaunchArgs" where
  "args0 argv envp = \<lparr>m_argv = argv, m_envp = envp, m_stdin_file_spec = None,
                      m_stdout_file_spec = None, m_stderr_file_spec = None, m_working_dir = None\<rparr>"

text \<open>A thread for which every debug register request fails.\<close>

definition dbgr_sys0 :: dbgr_sys where
  "dbgr_sys0 = \<lparr>uninitialised_dbg_info = 0x1234, GETREGSET_HW_WATCH = None,
                 GETREGSET_HW_BREAK = None, SETREGSET_fails = True\<rparr>"

subsection \<open>Invariants of the funnel\<close>

text \<open>
  Two sets of funnel states: those where the owner's thread function has not returned and
  \<^verbatim>\<open>StopOpThread\<close> has not either; and those where the owner's thread function has returned
  without ever serving, nothing has been posted to \<^verbatim>\<open>m_operation_done\<close>, and the caller is
  in \<^verbatim>\<open>StopOpThread\<close> before its join.
\<close>

definition never_joined :: "'op funnel \<Rightarrow> bool" where
  "never_joined s \<longleftrightarrow>
     IsJoinable s \<and> owner s \<noteq> Owner_returned \<and> caller s \<noteq> StopOpThread_returned"

definition waits_for_done :: "'op funnel \<Rightarrow> bool" where
  "waits_for_done s \<longleftrightarrow>
     IsJoinable s \<and> owner s = Owner_returned \<and> m_operation_done s = 0 \<and>
     (case caller s of
        StopOpThread_entry \<Rightarrow> True
      | StopOpThread_DoOperation pc \<Rightarrow> True
      | _ \<Rightarrow> False)"

section \<open>Memory transfers\<close>

subsection \<open>Bytes of a word\<close>

declare DoReadMemory_loop.simps [simp del]
declare DoWriteMemory_loop.simps [simp del]

lemma upt8: "[0..<8] = [0,1,2,3,4,5,6,7::nat]"
  by (simp add: upt_rec)

lemma ff_mask: "(0xFF :: long) = mask 8"
  by (simp add: mask_eq_exp_minus_1)

lemma and_ff_ucast: "(ucast ((w::long) AND 0xFF) :: byte) = ucast w"
  unfolding ff_mask by (rule bit_word_eqI) (auto simp: bit_simps)

lemma byte_of_load_word:
  assumes "i < 8"
  shows "(ucast (drop_bit (i * 8) (load_word m a)) :: byte) = m (a + of_nat i)"
proof -
  from assms have "i \<in> set [0..<8]"
    by simp
  then show ?thesis
    unfolding upt8
    by (elim set_ConsD [elim_format] disjE)
       (simp_all add: load_word_def, (rule bit_word_eqI, auto simp: bit_simps dest: bit_imp_le_length)+)
qed

lemma byte_of_pack:
  assumes "i < 8"
  shows "(ucast (drop_bit (i * 8) (pack src)) :: byte) = src ! i"
proof -
  from assms have "i \<in> set [0..<8]"
    by simp
  then show ?thesis
    unfolding upt8
    by (elim set_ConsD [elim_format] disjE)
       (simp_all add: upt8 pack_def word_size_def, (rule bit_word_eqI, auto simp: bit_simps dest: bit_imp_le_length)+)
qed

lemma unpack_load_word:
  "r \<le> 8 \<Longrightarrow> map (\<lambda>i. ucast (drop_bit (i * 8) (load_word m a) AND 0xFF)) [0..<r]
     = map (\<lambda>i. m (a + of_nat i)) [0..<r]"
  by (simp add: and_ff_ucast byte_of_load_word)

lemma read_done:
  "\<not> bytes_read < sz \<Longrightarrow> DoReadMemory_loop p a sz bytes_read dst err = (dst, bytes_read, err)"
  by (subst DoReadMemory_loop.simps) simp

lemma read_step_fail:
  "bytes_read < sz \<Longrightarrow> peek_errno p a \<noteq> 0 \<Longrightarrow>
   DoReadMemory_loop p a sz bytes_read dst err = (dst, bytes_read, ErrnoError (peek_errno p a))"
  by (subst DoReadMemory_loop.simps) (simp add: PTRACE_PEEKDATA_def)

lemma read_step_ok:
  "bytes_read < sz \<Longrightarrow> peek_errno p a = 0 \<Longrightarrow>
   DoReadMemory_loop p a sz bytes_read dst err =
   DoReadMemory_loop p (a + 8) sz (bytes_read + min 8 (sz - bytes_read))
     (dst @ map (\<lambda>i. mem p (a + of_nat i)) [0..<min 8 (sz - bytes_read)]) err"
  by (subst DoReadMemory_loop.simps)
     (simp add: PTRACE_PEEKDATA_def word_size_def Let_def unpack_load_word min_def)

lemma write_done:
  "\<not> bytes_written < sz \<Longrightarrow> DoWriteMemory_loop p a src sz bytes_written err = (p, bytes_written, err)"
  by (subst DoWriteMemory_loop.simps) simp

lemma write_step_full:
  "8 \<le> sz - bytes_written \<Longrightarrow>
   DoWriteMemory_loop p a src sz bytes_written err =
     (if poke_errno p a \<noteq> 0 then (p, bytes_written, ErrnoError (poke_errno p a))
      else DoWriteMemory_loop (p\<lparr>mem := store_word (mem p) a (pack src)\<rparr>) (a + 8) (drop 8 src)
             sz (bytes_written + 8) err)"
proof -
  assume r: "8 \<le> sz - bytes_written"
  then have lt: "bytes_written < sz"
    by simp
  show ?thesis
    by (subst DoWriteMemory_loop.simps)
       (use r lt in \<open>simp add: PTRACE_POKEDATA_def word_size_def Let_def pack_def\<close>)
qed

lemma write_word:
  "DoWriteMemory_loop p a buff 8 0 err =
     (if poke_errno p a \<noteq> 0 then (p, 0, ErrnoError (poke_errno p a))
      else (p\<lparr>mem := store_word (mem p) a (pack buff)\<rparr>, 8, err))"
  by (simp add: write_step_full write_done)

lemma read_word:
  "DoReadMemory p a 8 err =
     (if peek_errno p a \<noteq> 0 then ([], 0, ErrnoError (peek_errno p a))
      else (map (\<lambda>i. mem p (a + of_nat i)) [0..<8], 8, err))"
  by (simp add: DoReadMemory_def read_step_fail read_step_ok read_done)

lemma write_step_partial:
  "0 < sz - bytes_written \<Longrightarrow> sz - bytes_written < 8 \<Longrightarrow>
   DoWriteMemory_loop p a src sz bytes_written err =
     (if peek_errno p a \<noteq> 0 then (p, bytes_written, ErrnoError (peek_errno p a))
      else if poke_errno p a \<noteq> 0 then (p, bytes_written, ErrnoError (poke_errno p a))
      else (p\<lparr>mem := store_word (mem p) a
                 (pack (take (sz - bytes_written) src @
                        drop (sz - bytes_written) (map (\<lambda>i. mem p (a + of_nat i)) [0..<8])))\<rparr>,
            sz, err))"
proof -
  assume r: "0 < sz - bytes_written" "sz - bytes_written < 8"
  then have lt: "bytes_written < sz"
    by simp
  show ?thesis
    by (subst DoWriteMemory_loop.simps)
       (use r lt in \<open>simp add: word_size_def Let_def read_word write_word write_done\<close>)
qed


lemma map_upt_split:
  "map g [0..<n + m] = map g [0..<n] @ map (\<lambda>j. g (n + j)) [0..<m]"
  by (rule nth_equalityI) (auto simp: nth_append)

lemma map_mem_split:
  "M = 8 + N \<Longrightarrow>
   map (\<lambda>i. m (a + of_nat i)) [0..<8] @ map (\<lambda>j. m (a + 8 + of_nat j)) [0..<N] =
   map (\<lambda>j. (m (a + of_nat j))) [0..<M]"
  using map_upt_split [of "\<lambda>j. m (a + of_nat j)" 8 N] by (simp add: add.assoc)

lemma read_fail_at:
  assumes "\<forall>j<k. peek_errno p (a + of_nat (j * 8)) = 0"
    and "peek_errno p (a + of_nat (k * 8)) = e" and "e \<noteq> 0"
    and "bytes_read + k * 8 < sz"
  shows "DoReadMemory_loop p a sz bytes_read dst err =
           (dst @ map (\<lambda>j. mem p (a + of_nat j)) [0..<k * 8], bytes_read + k * 8, ErrnoError e)"
  using assms
proof (induction k arbitrary: a bytes_read dst)
  case 0
  then show ?case
    by (simp add: read_step_fail)
next
  case (Suc k)
  from Suc.prems(1) have ok: "peek_errno p a = 0"
    by (metis add.right_neutral mult_zero_left of_nat_0 zero_less_Suc)
  from Suc.prems(4) have lt: "bytes_read < sz" and m: "min 8 (sz - bytes_read) = 8"
    by simp_all
  have later: "\<forall>j<k. peek_errno p (a + 8 + of_nat (j * 8)) = 0"
  proof (intro allI impI)
    fix j assume "j < k"
    then have "peek_errno p (a + of_nat (Suc j * 8)) = 0"
      using Suc.prems(1) by (meson Suc_less_eq)
    then show "peek_errno p (a + 8 + of_nat (j * 8)) = 0"
      by (simp add: add.assoc)
  qed
  have fails: "peek_errno p (a + 8 + of_nat (k * 8)) = e"
    using Suc.prems(2) by (simp add: add.assoc)
  have bound: "bytes_read + 8 + k * 8 < sz"
    using Suc.prems(4) by simp
  have "DoReadMemory_loop p a sz bytes_read dst err =
        DoReadMemory_loop p (a + 8) sz (bytes_read + 8)
          (dst @ map (\<lambda>i. mem p (a + of_nat i)) [0..<8]) err"
    using read_step_ok [OF lt ok] m by simp
  also have "\<dots> = ((dst @ map (\<lambda>i. mem p (a + of_nat i)) [0..<8]) @
                     map (\<lambda>j. mem p (a + 8 + of_nat j)) [0..<k * 8],
                   bytes_read + 8 + k * 8, ErrnoError e)"
    by (rule Suc.IH [OF later fails Suc.prems(3) bound])
  also have "\<dots> = (dst @ map (\<lambda>j. mem p (a + of_nat j)) [0..<Suc k * 8],
                   bytes_read + Suc k * 8, ErrnoError e)"
    using map_upt_split [of "\<lambda>j. mem p (a + of_nat j)" 8 "k * 8"]
    by (simp add: add.assoc)
  finally show ?case .
qed

lemma read_all:
  assumes "\<forall>j. j * 8 < sz - bytes_read \<longrightarrow> peek_errno p (a + of_nat (j * 8)) = 0"
  shows "DoReadMemory_loop p a sz bytes_read dst err =
           (dst @ map (\<lambda>j. mem p (a + of_nat j)) [0..<sz - bytes_read],
            max sz bytes_read, err)"
  using assms
proof (induction n \<equiv> "sz - bytes_read" arbitrary: a bytes_read dst rule: less_induct)
  case less
  show ?case
  proof (cases "bytes_read < sz")
    case False
    then show ?thesis
      by (simp add: read_done max_def)
  next
    case True
    define r where "r = min 8 (sz - bytes_read)"
    from True have r: "0 < r" "r \<le> 8" "r \<le> sz - bytes_read"
      by (simp_all add: r_def)
    from less.prems True have ok: "peek_errno p a = 0"
      by (metis add.right_neutral mult_zero_left of_nat_0 zero_less_diff)
    have later: "\<forall>j. j * 8 < sz - (bytes_read + r) \<longrightarrow> peek_errno p (a + 8 + of_nat (j * 8)) = 0"
    proof (intro allI impI)
      fix j assume j: "j * 8 < sz - (bytes_read + r)"
      then have "r = 8"
        using r by (simp add: r_def min_def split: if_splits)
      with j have "Suc j * 8 < sz - bytes_read"
        by simp
      then have "peek_errno p (a + of_nat (Suc j * 8)) = 0"
        using less.prems by blast
      then show "peek_errno p (a + 8 + of_nat (j * 8)) = 0"
        by (simp add: add.assoc)
    qed
    have dec: "sz - (bytes_read + r) < sz - bytes_read"
      using True r by simp
    have "DoReadMemory_loop p a sz bytes_read dst err =
          DoReadMemory_loop p (a + 8) sz (bytes_read + r)
            (dst @ map (\<lambda>i. mem p (a + of_nat i)) [0..<r]) err"
      using read_step_ok [OF True ok] by (simp add: r_def)
    also have "\<dots> = ((dst @ map (\<lambda>i. mem p (a + of_nat i)) [0..<r]) @
                       map (\<lambda>j. mem p (a + 8 + of_nat j)) [0..<sz - (bytes_read + r)],
                     max sz (bytes_read + r), err)"
      by (rule less.hyps [OF dec later])
    also have "\<dots> = (dst @ map (\<lambda>j. mem p (a + of_nat j)) [0..<sz - bytes_read],
                     max sz bytes_read, err)"
    proof -
      have mx: "max sz (bytes_read + r) = max sz bytes_read"
        using True r by simp
      have "map (\<lambda>i. mem p (a + of_nat i)) [0..<r] @
              map (\<lambda>j. mem p (a + 8 + of_nat j)) [0..<sz - (bytes_read + r)] =
            map (\<lambda>j. mem p (a + of_nat j)) [0..<sz - bytes_read]"
      proof (cases "r = 8")
        case True
        have "map (\<lambda>i. mem p (a + of_nat i)) [0..<8] @
              map (\<lambda>j. mem p (a + 8 + of_nat j)) [0..<sz - (bytes_read + r)] =
            map (\<lambda>j. mem p (a + of_nat j)) [0..<sz - bytes_read]"
          by (rule map_mem_split) (use True r in arith)
        with True show ?thesis
          by (simp only:)
      next
        case False
        then have "sz - bytes_read = r"
          using r by (simp add: r_def min_def split: if_splits)
        then show ?thesis
          by simp
      qed
      with mx show ?thesis
        by simp
    qed
    finally show ?thesis .
  qed
qed

lemma dist_after_word: "8 \<le> r \<Longrightarrow> r \<le> unat (x - a) \<Longrightarrow> r - 8 \<le> unat (x - (a + 8 :: 64 word))"
proof -
  assume r: "8 \<le> r" "r \<le> unat (x - a)"
  then have "(8 :: 64 word) \<le> x - a"
    by (simp add: word_le_nat_alt)
  then have "unat ((x - a) - 8) = unat (x - a) - 8"
    by (simp add: unat_sub)
  moreover have "x - (a + 8) = (x - a) - 8"
    by simp
  ultimately have "unat (x - (a + 8)) = unat (x - a) - 8"
    by (simp only:)
  with r show ?thesis
    by simp
qed

lemma dist_before_next_word: "j < 8 \<Longrightarrow> r \<le> 2 ^ 64 \<Longrightarrow> r - 8 \<le> unat ((a + of_nat j) - (a + 8 :: 64 word))"
proof -
  assume j: "j < 8" and r: "r \<le> 2 ^ 64"
  define n :: nat where "n = 2 ^ 64 - 8 + j"
  have n: "n < 2 ^ 64" "r - 8 \<le> n"
    using j r by (simp_all add: n_def)
  have "(a + of_nat j) - (a + 8 :: 64 word) = of_nat n"
    by (simp add: n_def)
  moreover have "unat (of_nat n :: 64 word) = n"
    using n(1) by (simp add: unat_of_nat)
  ultimately show ?thesis
    using n(2) by (simp only:)
qed

lemma dist_within_word: "j < 8 \<Longrightarrow> unat ((a + of_nat j) - (a :: 64 word)) = j"
  by (simp add: unat_of_nat)


lemma store_word_outside: "8 \<le> unat (x - a) \<Longrightarrow> store_word m a w x = m x"
  by (simp add: store_word_def)

lemma store_word_inside:
  "j < 8 \<Longrightarrow> store_word m a w (a + of_nat j) = ucast (drop_bit (j * 8) w)"
  by (simp add: store_word_def unat_of_nat)

lemma store_word_overlay:
  assumes "r \<le> length src" and "r \<le> 8"
  shows "store_word m a
           (pack (take r src @ drop r (map (\<lambda>i. m (a + of_nat i)) [0..<8]))) x =
         (if unat (x - a) < r then src ! unat (x - a) else m x)"
proof (cases "unat (x - a) < 8")
  case False
  with assms show ?thesis
    by (simp add: store_word_def)
next
  case True
  define d where "d = unat (x - a)"
  have x: "x = a + of_nat d"
    by (simp add: d_def)
  have d: "d < 8"
    using True by (simp add: d_def)
  let ?L = "take r src @ drop r (map (\<lambda>i. m (a + of_nat i)) [0..<8])"
  have "store_word m a (pack ?L) (a + of_nat d) = ?L ! d"
    using d by (simp add: store_word_inside byte_of_pack)
  also have "\<dots> = (if d < r then src ! d else m (a + of_nat d))"
    using d assms by (simp add: nth_append)
  finally have "store_word m a (pack ?L) (a + of_nat d) =
                 (if d < r then src ! d else m (a + of_nat d))" .
  moreover have "a + of_nat d = x"
    by (simp add: d_def)
  ultimately show ?thesis
    by (simp add: d_def)
qed

lemma write_frame:
  assumes "sz - bytes_written \<le> length src" and "sz - bytes_written \<le> unat (x - a)"
  shows "mem (fst (DoWriteMemory_loop p a src sz bytes_written err)) x = mem p x"
  using assms
proof (induction n \<equiv> "sz - bytes_written" arbitrary: p a src bytes_written rule: less_induct)
  case less
  consider "\<not> bytes_written < sz" | "8 \<le> sz - bytes_written"
    | "0 < sz - bytes_written" "sz - bytes_written < 8"
    by linarith
  then show ?case
  proof cases
    case 1
    then show ?thesis
      by (simp add: write_done)
  next
    case 2
    show ?thesis
    proof (cases "poke_errno p a = 0")
      case False
      with 2 show ?thesis
        by (simp add: write_step_full)
    next
      case True
      let ?p1 = "p\<lparr>mem := store_word (mem p) a (pack src)\<rparr>"
      have dec: "sz - (bytes_written + 8) < sz - bytes_written"
        using 2 by simp
      have len: "sz - (bytes_written + 8) \<le> length (drop 8 src)"
        using less.prems(1) by simp
      have far: "sz - (bytes_written + 8) \<le> unat (x - (a + 8))"
        using dist_after_word [OF 2 less.prems(2)] by simp
      have "mem (fst (DoWriteMemory_loop ?p1 (a + 8) (drop 8 src) sz (bytes_written + 8) err)) x =
            mem ?p1 x"
        by (rule less.hyps [OF dec len far])
      moreover have "mem ?p1 x = mem p x"
        using 2 less.prems(2) by (simp add: store_word_outside)
      ultimately show ?thesis
        using 2 True by (simp add: write_step_full)
    qed
  next
    case 3
    then show ?thesis
      using less.prems by (simp add: write_step_partial store_word_overlay)
  qed
qed

lemma write_errno:
  "peek_errno (fst (DoWriteMemory_loop p a src sz bytes_written err)) = peek_errno p \<and>
   poke_errno (fst (DoWriteMemory_loop p a src sz bytes_written err)) = poke_errno p"
proof (induction n \<equiv> "sz - bytes_written" arbitrary: p a src bytes_written rule: less_induct)
  case less
  consider "\<not> bytes_written < sz" | "8 \<le> sz - bytes_written"
    | "0 < sz - bytes_written" "sz - bytes_written < 8"
    by linarith
  then show ?case
  proof cases
    case 1
    then show ?thesis
      by (simp add: write_done)
  next
    case 2
    let ?p1 = "p\<lparr>mem := store_word (mem p) a (pack src)\<rparr>"
    have dec: "sz - (bytes_written + 8) < sz - bytes_written"
      using 2 by simp
    from less.hyps [OF dec, of ?p1 "a + 8" "drop 8 src"] 2 show ?thesis
      by (simp add: write_step_full)
  next
    case 3
    then show ?thesis
      by (simp add: write_step_partial)
  qed
qed


lemma write_success:
  assumes "sz - bytes_written \<le> length src" and "sz - bytes_written \<le> 2 ^ 64"
    and "\<forall>a. poke_errno p a = 0 \<longrightarrow> peek_errno p a = 0"
    and "fst (snd (DoWriteMemory_loop p a src sz bytes_written err)) = sz"
  shows "(\<forall>j. j < sz - bytes_written \<longrightarrow>
            mem (fst (DoWriteMemory_loop p a src sz bytes_written err)) (a + of_nat j) = src ! j) \<and>
         (\<forall>j. j * 8 < sz - bytes_written \<longrightarrow> peek_errno p (a + of_nat (j * 8)) = 0)"
  using assms
proof (induction n \<equiv> "sz - bytes_written" arbitrary: p a src bytes_written rule: less_induct)
  case less
  consider "\<not> bytes_written < sz" | "8 \<le> sz - bytes_written"
    | "0 < sz - bytes_written" "sz - bytes_written < 8"
    by linarith
  then show ?case
  proof cases
    case 1
    then show ?thesis
      by simp
  next
    case 2
    let ?p1 = "p\<lparr>mem := store_word (mem p) a (pack src)\<rparr>"
    let ?rest = "DoWriteMemory_loop ?p1 (a + 8) (drop 8 src) sz (bytes_written + 8) err"
    from 2 have lt: "bytes_written < sz"
      by simp
    have poke: "poke_errno p a = 0"
    proof (rule ccontr)
      assume "poke_errno p a \<noteq> 0"
      then have "fst (snd (DoWriteMemory_loop p a src sz bytes_written err)) = bytes_written"
        using 2 by (simp add: write_step_full)
      with less.prems(4) lt show False
        by simp
    qed
    then have peek: "peek_errno p a = 0"
      using less.prems(3) by blast
    have step: "DoWriteMemory_loop p a src sz bytes_written err = ?rest"
      using 2 poke by (simp add: write_step_full)
    have dec: "sz - (bytes_written + 8) < sz - bytes_written"
      using 2 by simp
    have len: "sz - (bytes_written + 8) \<le> length (drop 8 src)"
      using less.prems(1) by simp
    have bnd: "sz - (bytes_written + 8) \<le> 2 ^ 64"
      using less.prems(2) by simp
    have env: "\<forall>a. poke_errno ?p1 a = 0 \<longrightarrow> peek_errno ?p1 a = 0"
      using less.prems(3) by simp
    have ok: "fst (snd ?rest) = sz"
      using less.prems(4) step by simp
    note IH = less.hyps [OF dec len bnd env ok]
    have content: "mem (fst ?rest) (a + of_nat j) = src ! j" if "j < sz - bytes_written" for j
    proof (cases "j < 8")
      case True
      have "sz - (bytes_written + 8) \<le> unat ((a + of_nat j) - (a + 8))"
        using dist_before_next_word [OF True less.prems(2), of a] by simp
      then have "mem (fst ?rest) (a + of_nat j) = mem ?p1 (a + of_nat j)"
        by (rule write_frame [OF len])
      also have "\<dots> = src ! j"
        using True by (simp add: store_word_inside byte_of_pack)
      finally show ?thesis .
    next
      case False
      then obtain i where i: "j = 8 + i"
        using le_Suc_ex by (metis not_less)
      with that have "i < sz - (bytes_written + 8)"
        by simp
      then have "mem (fst ?rest) (a + 8 + of_nat i) = drop 8 src ! i"
        using IH by blast
      moreover have "8 + i < length src"
        using i that less.prems(1) by simp
      ultimately show ?thesis
        using i by (simp add: add.assoc)
    qed
    have peeks: "peek_errno p (a + of_nat (j * 8)) = 0" if "j * 8 < sz - bytes_written" for j
    proof (cases j)
      case 0
      with peek show ?thesis
        by simp
    next
      case (Suc i)
      with that have "i * 8 < sz - (bytes_written + 8)"
        by simp
      then have "peek_errno ?p1 (a + 8 + of_nat (i * 8)) = 0"
        using IH by blast
      with Suc show ?thesis
        by (simp add: add.assoc)
    qed
    from content peeks show ?thesis
      unfolding step by blast
  next
    case 3
    from 3 have lt: "bytes_written < sz"
      by simp
    have peek: "peek_errno p a = 0"
    proof (rule ccontr)
      assume "peek_errno p a \<noteq> 0"
      then have "fst (snd (DoWriteMemory_loop p a src sz bytes_written err)) = bytes_written"
        using 3 by (simp add: write_step_partial)
      with less.prems(4) lt show False
        by simp
    qed
    have poke: "poke_errno p a = 0"
    proof (rule ccontr)
      assume "poke_errno p a \<noteq> 0"
      then have "fst (snd (DoWriteMemory_loop p a src sz bytes_written err)) = bytes_written"
        using 3 peek by (simp add: write_step_partial)
      with less.prems(4) lt show False
        by simp
    qed
    have content: "mem (fst (DoWriteMemory_loop p a src sz bytes_written err)) (a + of_nat j) = src ! j"
      if "j < sz - bytes_written" for j
    proof -
      from that 3 have "j < 8"
        by simp
      then have "unat ((a + of_nat j) - a) = j"
        by (rule dist_within_word)
      then show ?thesis
        using 3 peek poke that less.prems(1)
        by (simp add: write_step_partial store_word_overlay del: add_diff_cancel_left')
    qed
    have peeks: "peek_errno p (a + of_nat (j * 8)) = 0" if "j * 8 < sz - bytes_written" for j
    proof -
      from that 3 have "j = 0"
        by simp
      with peek show ?thesis
        by simp
    qed
    from content peeks show ?thesis
      by blast
  qed
qed


subsection \<open>Properties of the memory operations\<close>

text \<open>
  C7.  When the peek of word number \<open>k\<close> (counting from 0) of a read fails, the words before
  it having been read, the loop stops there: \<open>DoReadMemory\<close> returns the count \<open>k * word_size\<close>,
  which is the number of bytes copied before the failing peek, those bytes, and the error
  slot set to the errno of the failing request.
\<close>

theorem DoReadMemory_failing_peek:
  assumes "k * word_size < sz"
    and "\<forall>j<k. peek_errno p (A + of_nat (j * word_size)) = 0"
    and "peek_errno p (A + of_nat (k * word_size)) = e" and "e \<noteq> 0"
  shows "DoReadMemory p A sz error =
           (map (\<lambda>j. mem p (A + of_nat j)) [0..<k * word_size], k * word_size, ErrnoError e)"
  using assms read_fail_at [of k p A e 0 sz "[]" error]
  by (simp add: DoReadMemory_def word_size_def)

theorem DoReadMemory_failing_peek_witness:
  "DoReadMemory inferior0 0x1000 20 Success =
     ([0, 1, 2, 3, 4, 5, 6, 7, 8, 9, 10, 11, 12, 13, 14, 15], 16, ErrnoError 5)"
proof -
  have h1: "2 * word_size < (20::nat)"
    by (simp add: word_size_def)
  have h2: "\<forall>j<2. peek_errno inferior0 (0x1000 + of_nat (j * word_size)) = 0"
    by (simp add: inferior0_def word_size_def less_2_cases_iff)
  have h3: "peek_errno inferior0 (0x1000 + of_nat (2 * word_size)) = 5"
    by (simp add: inferior0_def word_size_def)
  show ?thesis
    using DoReadMemory_failing_peek [OF h1 h2 h3, of Success]
    by (simp add: word_size_def inferior0_def upt_rec)
qed

text \<open>
  C4.  A write of the bytes \<open>B\<close> at address \<open>A\<close>, whether it succeeds or stops at a failing
  request, leaves every byte of the inferior outside \<open>[A, A + length B)\<close> as it was (the
  addresses \<open>x\<close> whose distance \<open>x - A\<close>, taken in 64-bit arithmetic, is at least the
  length); in particular the byte at \<open>A - 1\<close> and the byte at \<open>A + length B\<close>.  This includes
  the trailing partial word, which is read, overlaid and written back whole.
\<close>

theorem DoWriteMemory_preserves_outside:
  "(length B \<le> unat (x - A) \<longrightarrow> mem (fst (DoWriteMemory p A B error)) x = mem p x) \<and>
   (length B < 2 ^ 64 \<longrightarrow>
      mem (fst (DoWriteMemory p A B error)) (A - 1) = mem p (A - 1) \<and>
      mem (fst (DoWriteMemory p A B error)) (A + of_nat (length B)) = mem p (A + of_nat (length B)))"
proof (intro conjI impI)
  assume "length B \<le> unat (x - A)"
  then show "mem (fst (DoWriteMemory p A B error)) x = mem p x"
    unfolding DoWriteMemory_def by (intro write_frame) simp_all
next
  assume n: "length B < 2 ^ 64"
  have "unat ((A - 1) - A) = 2 ^ 64 - 1"
    by (simp add: unsigned_minus_1_eq_mask mask_eq_exp_minus_1)
  with n have "length B - 0 \<le> unat ((A - 1) - A)"
    by simp
  then show "mem (fst (DoWriteMemory p A B error)) (A - 1) = mem p (A - 1)"
    unfolding DoWriteMemory_def by (intro write_frame) simp_all
next
  assume n: "length B < 2 ^ 64"
  then have "unat ((A + of_nat (length B)) - A) = length B"
    by (simp add: unat_of_nat)
  then have "length B - 0 \<le> unat ((A + of_nat (length B)) - A)"
    by simp
  then show "mem (fst (DoWriteMemory p A B error)) (A + of_nat (length B)) =
             mem p (A + of_nat (length B))"
    unfolding DoWriteMemory_def by (intro write_frame) simp_all
qed

theorem DoWriteMemory_preserves_outside_witness:
  "mem (fst (DoWriteMemory inferior0 0x4000 [0xAB] Success)) 0x3FFF = 0xFF \<and>
   mem (fst (DoWriteMemory inferior0 0x4000 [0xAB] Success)) 0x4001 = 0x01"
proof -
  have h1: "length [0xAB :: byte] \<le> unat (0x3FFF - 0x4000 :: addr_t)"
    by (simp add: unsigned_minus_1_eq_mask mask_eq_exp_minus_1)
  have h2: "length [0xAB :: byte] < 2 ^ 64"
    by simp
  show ?thesis
    using DoWriteMemory_preserves_outside [of "[0xAB]" "0x3FFF" "0x4000" inferior0 Success] h1 h2
    by (simp add: inferior0_def)
qed

text \<open>
  C3.  A write of the \<open>n\<close> bytes \<open>B\<close> at any address \<open>A\<close>, aligned or not, that succeeds (it
  returns \<open>n\<close>), followed by a read of \<open>n\<close> bytes at \<open>A\<close>, returns exactly \<open>B\<close> and the count
  \<open>n\<close>, and leaves the error slot alone, whatever \<open>n\<close> is modulo the word size.  \<open>n\<close> is a
  \<^verbatim>\<open>size_t\<close>, so below \<open>2 ^ 64\<close>; the kernel is taken to let the tracer peek every word that
  it lets the tracer poke.
\<close>

theorem WriteMemory_then_ReadMemory:
  assumes "length B < 2 ^ 64"
    and "\<forall>a. poke_errno p a = 0 \<longrightarrow> peek_errno p a = 0"
    and "DoWriteMemory p A B error = (p', length B, error')"
  shows "DoReadMemory p' A (length B) error'' = (B, length B, error'')"
proof -
  let ?w = "DoWriteMemory_loop p A B (length B) 0 error"
  have p': "p' = fst ?w" and ok: "fst (snd ?w) = length B"
    using assms(3) by (simp_all add: DoWriteMemory_def)
  have "length B - 0 \<le> length B" "length B - 0 \<le> 2 ^ 64"
    using assms(1) by simp_all
  from write_success [OF this assms(2) ok]
  have content: "\<forall>j. j < length B \<longrightarrow> mem p' (A + of_nat j) = B ! j"
    and peeks: "\<forall>j. j * 8 < length B - 0 \<longrightarrow> peek_errno p (A + of_nat (j * 8)) = 0"
    by (simp_all add: p')
  have "peek_errno p' = peek_errno p"
    using write_errno [of p A B "length B" 0 error] by (simp add: p')
  with peeks have "\<forall>j. j * 8 < length B - 0 \<longrightarrow> peek_errno p' (A + of_nat (j * 8)) = 0"
    by simp
  from read_all [OF this, of "[]" error'']
  have "DoReadMemory p' A (length B) error'' =
          (map (\<lambda>j. mem p' (A + of_nat j)) [0..<length B], length B, error'')"
    by (simp add: DoReadMemory_def)
  moreover have "map (\<lambda>j. mem p' (A + of_nat j)) [0..<length B] = B"
    using content by (intro nth_equalityI) simp_all
  ultimately show ?thesis
    by simp
qed

theorem WriteMemory_then_ReadMemory_witness:
  "DoReadMemory (fst (DoWriteMemory inferior0 0x4001 [0xAB, 0xCD, 1, 2, 3, 4, 5, 6, 7, 8, 9] Success))
     0x4001 11 Success = ([0xAB, 0xCD, 1, 2, 3, 4, 5, 6, 7, 8, 9], 11, Success)"
proof -
  let ?B = "[0xAB, 0xCD, 1, 2, 3, 4, 5, 6, 7, 8, 9] :: byte list"
  have h1: "length ?B < 2 ^ 64"
    by simp
  have h2: "\<forall>a. poke_errno inferior0 a = 0 \<longrightarrow> peek_errno inferior0 a = 0"
    by (simp add: inferior0_def)
  have "fst (snd (DoWriteMemory inferior0 0x4001 ?B Success)) = length ?B"
    by (simp add: DoWriteMemory_def write_step_full write_step_partial write_done inferior0_def)
  then have h3: "DoWriteMemory inferior0 0x4001 ?B Success =
      (fst (DoWriteMemory inferior0 0x4001 ?B Success), length ?B,
       snd (snd (DoWriteMemory inferior0 0x4001 ?B Success)))"
    by (metis prod.collapse)
  have len: "length ?B = 11"
    by simp
  show ?thesis
    using WriteMemory_then_ReadMemory [OF h1 h2 h3, of Success] unfolding len .
qed


section \<open>The event classifier\<close>

lemma MonitorSIGTRAP_sends_nothing:
  "length (filter is_SendMessage (snd (MonitorSIGTRAP env info pid))) = 0"
  by (simp add: MonitorSIGTRAP_def Let_def)

text \<open>
  C2.  For a wake-up whose siginfo has \<open>si_signo = SIGTRAP\<close> and \<open>si_code\<close> equal to
  \<open>SIGTRAP\<close> or \<open>SIGTRAP | 0x80\<close> (a system-call stop), the callback reads the signal info,
  issues \<open>Resume\<close> on that pid with no signal, delivers no message to the process object
  (all it hands to \<open>SendMessage\<close> is the default-constructed placeholder of invalid kind) and
  goes on monitoring.  For every wake-up the callback calls \<open>SendMessage\<close> at most once, so
  it delivers at most one message.
\<close>

theorem syscall_stop_absorbed:
  "(GetSignalInfo env = Inr info \<and> si_signo info = SIGTRAP \<and>
      (si_code info = SIGTRAP \<or> si_code info = SIGTRAP OR 0x80) \<longrightarrow>
    MonitorCallback env pid False signal status =
      (Inr False, [OpGetSignalInfo pid, OpResume pid eResumeSignalNone, SendMessage InvalidMessage]) \<and>
    filter delivers_message (snd (MonitorCallback env pid False signal status)) = []) \<and>
   length (filter is_SendMessage (snd (MonitorCallback env pid exited signal status))) \<le> 1"
proof (intro conjI impI)
  assume a: "GetSignalInfo env = Inr info \<and> si_signo info = SIGTRAP \<and>
      (si_code info = SIGTRAP \<or> si_code info = SIGTRAP OR 0x80)"
  then have "MonitorSIGTRAP env info pid = (Inr InvalidMessage, [OpResume pid eResumeSignalNone])"
    by (auto simp: MonitorSIGTRAP_def SIGTRAP_def PTRACE_EVENT_CLONE_def PTRACE_EVENT_EXEC_def
        PTRACE_EVENT_EXIT_def TRAP_TRACE_def SI_KERNEL_def TRAP_BRKPT_def TRAP_HWBKPT_def)
  with a show effects: "MonitorCallback env pid False signal status =
      (Inr False, [OpGetSignalInfo pid, OpResume pid eResumeSignalNone, SendMessage InvalidMessage])"
    by (simp add: MonitorCallback_def)
  show "filter delivers_message (snd (MonitorCallback env pid False signal status)) = []"
    unfolding effects by simp
next
  show "length (filter is_SendMessage (snd (MonitorCallback env pid exited signal status))) \<le> 1"
  proof (cases "GetSignalInfo env")
    case (Inl e)
    then show ?thesis
      by (simp add: MonitorCallback_def Let_def)
  next
    case (Inr info)
    obtain r effects where m: "MonitorSIGTRAP env info pid = (r, effects)"
      by (cases "MonitorSIGTRAP env info pid")
    with MonitorSIGTRAP_sends_nothing [of env info pid] have "filter is_SendMessage effects = []"
      by simp
    with Inr m show ?thesis
      by (cases r) (simp_all add: MonitorCallback_def)
  qed
qed

theorem syscall_stop_absorbed_witness:
  "MonitorCallback (env0\<lparr>GetSignalInfo := Inr (siginfo0 5 0x85 0)\<rparr>) 1234 False 5 0 =
     (Inr False, [OpGetSignalInfo 1234, OpResume 1234 eResumeSignalNone, SendMessage InvalidMessage]) \<and>
   filter delivers_message
     (snd (MonitorCallback (env0\<lparr>GetSignalInfo := Inr (siginfo0 5 0x85 0)\<rparr>) 1234 False 5 0)) = [] \<and>
   filter delivers_message
     (snd (MonitorCallback (env0\<lparr>GetSignalInfo := Inr (siginfo0 5 5 0)\<rparr>) 1234 False 5 0)) = []"
  using syscall_stop_absorbed
    [of "env0\<lparr>GetSignalInfo := Inr (siginfo0 5 0x85 0)\<rparr>" "siginfo0 5 0x85 0" 1234 5 0 False]
    syscall_stop_absorbed
    [of "env0\<lparr>GetSignalInfo := Inr (siginfo0 5 5 0)\<rparr>" "siginfo0 5 5 0" 1234 5 0 False]
  by (simp add: env0_def siginfo0_def SIGTRAP_def)

text \<open>
  C5, as the code has it.  When the signal-info read fails with \<open>EINVAL\<close>, the callback
  issues \<open>Resume\<close> on that pid with \<open>SIGSTOP\<close> and sends no message; it goes on monitoring if
  that \<open>Resume\<close> succeeds or the build has no assertions, and otherwise the assertion on the
  result of \<open>Resume\<close> aborts.  When the read fails with another errno and the pid is the
  process's id, the callback sends \<open>Exit(pid, status)\<close> and stops monitoring.
\<close>

theorem group_stop_and_lost_leader:
  "(GetSignalInfo env = Inl EINVAL \<longrightarrow>
      MonitorCallback env pid False signal status =
        (if Resume env \<or> ndebug env then Inr False else Inl AssertionFailed,
         [OpGetSignalInfo pid, OpResume pid (ResumeSignal SIGSTOP)])) \<and>
   (GetSignalInfo env = Inl e \<and> e \<noteq> EINVAL \<and> pid = process_GetID env \<longrightarrow>
      MonitorCallback env pid False signal status =
        (Inr True, [OpGetSignalInfo pid, SendMessage (Exit pid status)]))"
proof (intro conjI impI)
  assume "GetSignalInfo env = Inl EINVAL"
  then show "MonitorCallback env pid False signal status =
        (if Resume env \<or> ndebug env then Inr False else Inl AssertionFailed,
         [OpGetSignalInfo pid, OpResume pid (ResumeSignal SIGSTOP)])"
    by (simp add: MonitorCallback_def)
next
  assume "GetSignalInfo env = Inl e \<and> e \<noteq> EINVAL \<and> pid = process_GetID env"
  then show "MonitorCallback env pid False signal status =
        (Inr True, [OpGetSignalInfo pid, SendMessage (Exit pid status)])"
    by (simp add: MonitorCallback_def Let_def)
qed

theorem group_stop_and_lost_leader_witness:
  "MonitorCallback (env0\<lparr>GetSignalInfo := Inl 22\<rparr>) 99 False 19 0 =
     (Inr False, [OpGetSignalInfo 99, OpResume 99 (ResumeSignal 19)]) \<and>
   MonitorCallback (env0\<lparr>GetSignalInfo := Inl 3\<rparr>) 1234 False 0 7 =
     (Inr True, [OpGetSignalInfo 1234, SendMessage (Exit 1234 7)])"
  using group_stop_and_lost_leader [of "env0\<lparr>GetSignalInfo := Inl 22\<rparr>" 99 19 0 3]
    group_stop_and_lost_leader [of "env0\<lparr>GetSignalInfo := Inl 3\<rparr>" 1234 0 7 3]
  by (simp add: env0_def EINVAL_def SIGSTOP_def)

text \<open>
  The claim as first stated, that monitoring always continues after \<open>EINVAL\<close>, fails when the
  \<open>Resume\<close> is refused in a build with assertions.
\<close>

theorem group_stop_resume_failure_counterexample:
  "MonitorCallback (env0\<lparr>GetSignalInfo := Inl 22, Resume := False\<rparr>) 99 False 19 0 =
     (Inl AssertionFailed, [OpGetSignalInfo 99, OpResume 99 (ResumeSignal 19)])"
  by (simp add: MonitorCallback_def env0_def EINVAL_def SIGSTOP_def)

text \<open>
  C6.  For a stop whose signal is not \<open>SIGTRAP\<close> the callback sends exactly the message of
  \<open>MonitorSignal\<close> and goes on monitoring.  That message is: for \<open>si_code\<close> \<open>SI_USER\<close> or
  \<open>SI_TKILL\<close>, \<open>SignalDelivered(pid, signo)\<close> when the sender is the debugger's own pid and
  \<open>Signal(pid, signo)\<close> otherwise; for any other \<open>si_code\<close> and one of \<open>SIGSEGV\<close>, \<open>SIGILL\<close>,
  \<open>SIGFPE\<close>, \<open>SIGBUS\<close>, \<open>Crash(pid, reason, signo, fault address)\<close> with the reason computed
  from the siginfo and the address its \<open>si_addr\<close>; for every other signal,
  \<open>Signal(pid, signo)\<close>.
\<close>

theorem MonitorSignal_classification:
  assumes "GetSignalInfo env = Inr info" and "si_signo info \<noteq> SIGTRAP"
  shows "MonitorCallback env pid False signal status =
           (Inr False, [OpGetSignalInfo pid, SendMessage (MonitorSignal env info pid)]) \<and>
         (si_code info = SI_USER \<or> si_code info = SI_TKILL \<longrightarrow>
            MonitorSignal env info pid =
              (if si_pid info = getpid env then SignalDelivered pid (si_signo info)
               else Signal pid (si_signo info))) \<and>
         (si_code info \<noteq> SI_USER \<and> si_code info \<noteq> SI_TKILL \<and>
          si_signo info \<in> {SIGSEGV, SIGILL, SIGFPE, SIGBUS} \<longrightarrow>
            MonitorSignal env info pid =
              Crash pid (GetCrashReason env info) (si_signo info) (si_addr info)) \<and>
         (si_code info \<noteq> SI_USER \<and> si_code info \<noteq> SI_TKILL \<and>
          si_signo info \<notin> {SIGSEGV, SIGILL, SIGFPE, SIGBUS} \<longrightarrow>
            MonitorSignal env info pid = Signal pid (si_signo info))"
  using assms by (auto simp: MonitorCallback_def MonitorSignal_def Let_def)

theorem MonitorSignal_classification_witness:
  "MonitorCallback (env0\<lparr>GetSignalInfo := Inr (siginfo0 11 1 0)\<rparr>) 1234 False 11 0 =
     (Inr False, [OpGetSignalInfo 1234, SendMessage (Crash 1234 ''null'' 11 0)]) \<and>
   MonitorCallback (env0\<lparr>GetSignalInfo := Inr (siginfo0 19 (- 6) 77)\<rparr>) 1234 False 19 0 =
     (Inr False, [OpGetSignalInfo 1234, SendMessage (SignalDelivered 1234 19)]) \<and>
   MonitorCallback (env0\<lparr>GetSignalInfo := Inr (siginfo0 11 0 4242)\<rparr>) 1234 False 11 0 =
     (Inr False, [OpGetSignalInfo 1234, SendMessage (Signal 1234 11)]) \<and>
   MonitorCallback (env0\<lparr>GetSignalInfo := Inr (siginfo0 2 0x80 0)\<rparr>) 1234 False 2 0 =
     (Inr False, [OpGetSignalInfo 1234, SendMessage (Signal 1234 2)])"
  using
    MonitorSignal_classification
      [of "env0\<lparr>GetSignalInfo := Inr (siginfo0 11 1 0)\<rparr>" "siginfo0 11 1 0" 1234 11 0]
    MonitorSignal_classification
      [of "env0\<lparr>GetSignalInfo := Inr (siginfo0 19 (- 6) 77)\<rparr>" "siginfo0 19 (- 6) 77" 1234 19 0]
    MonitorSignal_classification
      [of "env0\<lparr>GetSignalInfo := Inr (siginfo0 11 0 4242)\<rparr>" "siginfo0 11 0 4242" 1234 11 0]
    MonitorSignal_classification
      [of "env0\<lparr>GetSignalInfo := Inr (siginfo0 2 0x80 0)\<rparr>" "siginfo0 2 0x80 0" 1234 2 0]
  by (simp add: env0_def siginfo0_def SIGTRAP_def SI_USER_def SI_TKILL_def SIGSEGV_def
      SIGILL_def SIGFPE_def SIGBUS_def)


section \<open>Launch\<close>

lemmas exit_codes =
  ePtraceFailed_def eDupStdinFailed_def eDupStdoutFailed_def eDupStderrFailed_def
  eChdirFailed_def eExecFailed_def eSetGidFailed_def

lemma Launch_child_exit_code:
  "Launch_child sys args envp = ChildExit code \<Longrightarrow> code \<in> {1, 2, 3, 4, 5, 6, 7}"
  by (auto simp: Launch_child_def exit_codes split: if_splits)

lemma exit_status_strings_distinct:
  "distinct (''Child returned unknown exit status.'' # map exit_status_string [1, 2, 3, 4, 5, 6, 7])"
  by (simp add: exit_status_string_def exit_codes)

lemma wait_status_exit:
  "code \<in> {1, 2, 3, 4, 5, 6, 7} \<Longrightarrow>
   WIFEXITED (wait_status (ChildExit code)) \<and> WEXITSTATUS (wait_status (ChildExit code)) = code"
  by (auto simp: WIFEXITED_def WEXITSTATUS_def wait_status_def)

lemma Launch_child_failure_reported:
  assumes "Launch_child sys args (Launch_envp sys args) = ChildExit code"
    and "\<not> fork_fails sys" and "waitpid_errno sys = 0"
  shows "Launch_error sys args = GenericError (exit_status_string code) \<and> \<not> Launch sys args"
  using assms wait_status_exit [OF Launch_child_exit_code [OF assms(1)]]
  by (simp add: Launch_error_def Launch_def Let_def)

text \<open>
  C9.  When the caller's \<open>envp\<close> is null or its first entry is null, the environment handed
  to the child is the debugger's own \<open>environ\<close>: any \<open>execve\<close> the child reaches gets it, and
  a launch that succeeds has executed \<open>argv\<close> with it.
\<close>

theorem null_envp_propagates_environ:
  assumes "m_envp args = None \<or> m_envp args = Some []"
  shows "Launch_envp sys args = environ sys \<and>
         (\<forall>argv envp. Launch_child sys args (Launch_envp sys args) = Execve argv envp \<longrightarrow>
            envp = environ sys) \<and>
         (Launch sys args \<longrightarrow>
            Launch_child sys args (Launch_envp sys args) = Execve (m_argv args) (environ sys))"
proof -
  from assms have e: "Launch_envp sys args = environ sys"
    by (auto simp: Launch_envp_def)
  have "Launch_child sys args (environ sys) = Execve (m_argv args) (environ sys)"
    if "Launch sys args"
  proof (cases "Launch_child sys args (environ sys)")
    case (ChildExit code)
    with that e wait_status_exit [OF Launch_child_exit_code [OF ChildExit]] show ?thesis
      by (auto simp: Launch_def Launch_error_def Let_def split: if_splits)
  next
    case (Execve argv envp)
    then show ?thesis
      by (auto simp: Launch_child_def split: if_splits)
  qed
  with e show ?thesis
    by (auto simp: Launch_child_def split: if_splits)
qed

theorem null_envp_propagates_environ_witness:
  "Launch_child sys0 (args0 [''/bin/true''] None) (Launch_envp sys0 (args0 [''/bin/true''] None)) =
     Execve [''/bin/true''] [''PATH=/bin'', ''HOME=/root''] \<and>
   Launch_child sys0 (args0 [''/bin/true''] (Some [])) (Launch_envp sys0 (args0 [''/bin/true''] (Some []))) =
     Execve [''/bin/true''] [''PATH=/bin'', ''HOME=/root'']"
proof -
  let ?a1 = "args0 [''/bin/true''] None" and ?a2 = "args0 [''/bin/true''] (Some [])"
  have l1: "Launch sys0 ?a1" and l2: "Launch sys0 ?a2"
    by (simp_all add: Launch_def Launch_error_def Launch_envp_def Launch_child_def sys0_def
        args0_def wait_status_def WIFEXITED_def SIGTRAP_def)
  have h1: "m_envp ?a1 = None \<or> m_envp ?a1 = Some []"
    and h2: "m_envp ?a2 = None \<or> m_envp ?a2 = Some []"
    by (simp_all add: args0_def)
  have v: "m_argv ?a1 = [''/bin/true'']" "m_argv ?a2 = [''/bin/true'']"
    "environ sys0 = [''PATH=/bin'', ''HOME=/root'']"
    by (simp_all add: args0_def sys0_def)
  from null_envp_propagates_environ [OF h1, of sys0] l1
    null_envp_propagates_environ [OF h2, of sys0] l2
  show ?thesis
    unfolding v by blast
qed


section \<open>Hardware debug registers\<close>

lemma WriteHardwareDebugRegs_out_of_bounds:
  "WriteHardwareDebugRegs sys (replicate 19 0) (replicate 19 0) 0 19 = Inl OutOfBounds"
  by (simp add: WriteHardwareDebugRegs_def WriteDBGROperation_Execute_def dbg_regs_size_def)

text \<open>
  C10.  \<open>ReadHardwareDebugInfo\<close> returns true whatever its two register-set reads do, also
  when both fail and the counts come from the uninitialised buffer.  \<open>WriteHardwareDebugRegs\<close>,
  called with a count within the 16 debug registers and within the caller's two arrays,
  returns true whatever the register-set write does: its result is the same when the
  request fails as when it succeeds.
\<close>

theorem hardware_debug_operations_return_true:
  assumes "count \<le> int dbg_regs_size"
    and "nat count \<le> length addr_buf" and "nat count \<le> length cntrl_buf"
  shows "fst (ReadHardwareDebugInfo sys) = True \<and>
         ReadHardwareDebugInfo (sys\<lparr>GETREGSET_HW_WATCH := None, GETREGSET_HW_BREAK := None\<rparr>) =
           (True, uninitialised_dbg_info sys AND 0xFF, uninitialised_dbg_info sys AND 0xFF) \<and>
         WriteHardwareDebugRegs sys addr_buf cntrl_buf type count =
           Inr (True, if type = 0 then NT_ARM_HW_WATCH else NT_ARM_HW_BREAK,
                map (\<lambda>i. (addr_buf ! i, cntrl_buf ! i)) [0..<nat count] @
                replicate (dbg_regs_size - nat count) (0, 0)) \<and>
         WriteHardwareDebugRegs (sys\<lparr>SETREGSET_fails := True\<rparr>) addr_buf cntrl_buf type count =
           WriteHardwareDebugRegs (sys\<lparr>SETREGSET_fails := False\<rparr>) addr_buf cntrl_buf type count"
proof -
  from assms(1) have "\<not> dbg_regs_size < nat count"
    by simp
  with assms(2,3) have w: "WriteHardwareDebugRegs s addr_buf cntrl_buf type count =
      Inr (True, if type = 0 then NT_ARM_HW_WATCH else NT_ARM_HW_BREAK,
           map (\<lambda>i. (addr_buf ! i, cntrl_buf ! i)) [0..<nat count] @
           replicate (dbg_regs_size - nat count) (0, 0))" for s
    by (simp add: WriteHardwareDebugRegs_def WriteDBGROperation_Execute_def Let_def)
  have "fst (ReadHardwareDebugInfo sys) = True"
    by (simp add: ReadHardwareDebugInfo_def Let_def split: prod.splits)
  moreover have "ReadHardwareDebugInfo (sys\<lparr>GETREGSET_HW_WATCH := None, GETREGSET_HW_BREAK := None\<rparr>) =
           (True, uninitialised_dbg_info sys AND 0xFF, uninitialised_dbg_info sys AND 0xFF)"
    by (simp add: ReadHardwareDebugInfo_def ReadDBGROperation_Execute_def Let_def)
  ultimately show ?thesis
    by (simp add: w)
qed

theorem hardware_debug_operations_return_true_witness:
  "ReadHardwareDebugInfo dbgr_sys0 = (True, 0x34, 0x34) \<and>
   WriteHardwareDebugRegs dbgr_sys0 [0x4000, 0x5000] [1, 3] 0 2 =
     Inr (True, NT_ARM_HW_WATCH, (0x4000, 1) # (0x5000, 3) # replicate 14 (0, 0))"
proof -
  have h1: "(2::int) \<le> int dbg_regs_size"
    by (simp add: dbg_regs_size_def)
  have h2: "nat 2 \<le> length [0x4000, 0x5000 :: addr_t]" and h3: "nat 2 \<le> length [1, 3 :: 32 word]"
    by simp_all
  have r: "ReadHardwareDebugInfo dbgr_sys0 = (True, 0x34, 0x34)"
    by (simp add: ReadHardwareDebugInfo_def ReadDBGROperation_Execute_def dbgr_sys0_def)
  from hardware_debug_operations_return_true [OF h1 h2 h3, of dbgr_sys0 0] r show ?thesis
    by (simp add: dbg_regs_size_def upt_rec)
qed

section \<open>The operation funnel\<close>

lemma run_Nil [simp]: "run s [] = s"
  by (simp add: run_def)

lemma run_Cons [simp]: "run s (t # ts) = run (step s t) ts"
  by (simp add: run_def)

lemma DoOperation_round_trip:
  "caller (run (serving last_op (Some op) (In_DoOperation Do_store))
             [Caller, Caller, Owner, Owner, Owner, Caller]) = DoOperation_returned \<and>
   executed (run (serving last_op (Some op) (In_DoOperation Do_store))
             [Caller, Caller, Owner, Owner, Owner, Caller]) = [op]"
  by (simp add: serving_def)

lemma DoOperation_step_keeps:
  "DoOperation_step s pc = (s', r) \<Longrightarrow>
   IsJoinable s' = IsJoinable s \<and> owner s' = owner s \<and>
   (m_operation_done s = 0 \<longrightarrow> m_operation_done s' = 0 \<and> r \<noteq> None)"
  by (cases pc) (auto split: if_splits)

lemma never_joined_step: "never_joined s \<Longrightarrow> never_joined (step s t)"
  by (cases t; cases "caller s"; cases "owner s")
     (auto simp: never_joined_def dest: DoOperation_step_keeps
        split: option.splits prod.splits if_splits)

lemma never_joined_run: "never_joined s \<Longrightarrow> never_joined (run s schedule)"
  by (induction schedule arbitrary: s) (simp_all add: never_joined_step del: step.simps)

text \<open>
  C1, on the code as it is.  At teardown \<open>StopOpThread\<close> puts the sentinel in the slot and
  posts it.  Under no schedule does the owner's thread function return or \<open>StopOpThread\<close>
  get past its join; after three steps of the caller and two of the owner, the owner has
  called \<open>Execute\<close> through the sentinel, which is the null pointer.
\<close>

theorem teardown_dereferences_sentinel:
  "owner (run (serving last_op op StopOpThread_entry) schedule) \<noteq> Owner_returned \<and>
   caller (run (serving last_op op StopOpThread_entry) schedule) \<noteq> StopOpThread_returned \<and>
   owner (run (serving last_op op StopOpThread_entry) [Caller, Caller, Caller, Owner, Owner]) =
     Owner_crashed"
proof -
  have "never_joined (serving last_op op StopOpThread_entry)"
    by (simp add: never_joined_def serving_def)
  then have "never_joined (run (serving last_op op StopOpThread_entry) schedule)"
    by (rule never_joined_run)
  moreover have "owner (run (serving last_op op StopOpThread_entry)
                   [Caller, Caller, Caller, Owner, Owner]) = Owner_crashed"
    by (simp add: serving_def EXIT_OPERATION_def)
  ultimately show ?thesis
    by (simp add: never_joined_def)
qed

lemma waits_for_done_step: "waits_for_done s \<Longrightarrow> waits_for_done (step s t)"
  by (cases t; cases "caller s")
     (auto simp: waits_for_done_def dest: DoOperation_step_keeps
        split: option.splits prod.splits if_splits caller_pc.splits)

lemma waits_for_done_run: "waits_for_done s \<Longrightarrow> waits_for_done (run s schedule)"
  by (induction schedule arbitrary: s) (simp_all add: waits_for_done_step del: step.simps)

lemma failed_launch_blocks:
  "\<not> Launch sys args \<Longrightarrow> ProcessMonitor_ctor sys args schedule = Constructor_in_StopOpThread"
proof -
  have "waits_for_done (bootstrap_failed StopOpThread_entry :: unit funnel)"
    by (simp add: waits_for_done_def bootstrap_failed_def)
  then have "waits_for_done (run (bootstrap_failed StopOpThread_entry :: unit funnel) schedule)"
    by (rule waits_for_done_run)
  then have "caller (run (bootstrap_failed StopOpThread_entry :: unit funnel) schedule)
               \<noteq> StopOpThread_returned"
    by (auto simp: waits_for_done_def split: caller_pc.splits)
  then show "\<not> Launch sys args \<Longrightarrow> ?thesis"
    by (simp add: ProcessMonitor_ctor_def)
qed

text \<open>
  C8, on the code as it is.  Launching a program that cannot be executed: the child exits
  with \<open>eExecFailed\<close>, \<open>Launch\<close> leaves the error "Child exec failed." in the launch
  arguments, and the constructor, which calls \<open>StopOpThread\<close> before it copies that error
  to its caller, is under every schedule still inside \<open>StopOpThread\<close>.
\<close>

theorem failed_launch_constructor_never_returns:
  "Launch_child sys0 (args0 [''/missing''] None) (Launch_envp sys0 (args0 [''/missing''] None)) =
     ChildExit eExecFailed \<and>
   Launch_error sys0 (args0 [''/missing''] None) = GenericError ''Child exec failed.'' \<and>
   ProcessMonitor_ctor sys0 (args0 [''/missing''] None) schedule = Constructor_in_StopOpThread"
proof -
  have c: "Launch_child sys0 (args0 [''/missing''] None) (Launch_envp sys0 (args0 [''/missing''] None)) =
     ChildExit eExecFailed"
    by (simp add: Launch_child_def sys0_def args0_def)
  have "\<not> fork_fails sys0" "waitpid_errno sys0 = 0"
    by (simp_all add: sys0_def)
  from Launch_child_failure_reported [OF c this]
  have "Launch_error sys0 (args0 [''/missing''] None) = GenericError ''Child exec failed.''"
    and l: "\<not> Launch sys0 (args0 [''/missing''] None)"
    by (simp_all add: exit_status_string_def exit_codes)
  with c failed_launch_blocks [OF l] show ?thesis
    by simp
qed

end
